theory Spec2Isabelle
  imports Complex_Main
begin

section \<open>Values of the JSON payloads\<close>

text \<open>
  The webhook handlers of \<^verbatim>\<open>backend/main.py\<close> receive a decoded JSON object
  (\<^verbatim>\<open>request_data: dict\<close>). A value is what \<^verbatim>\<open>json\<close> decoding gives: \<^verbatim>\<open>None\<close>, a
  \<^verbatim>\<open>bool\<close>, a number, a \<^verbatim>\<open>str\<close>, a \<^verbatim>\<open>list\<close> or a \<^verbatim>\<open>dict\<close> with string keys. Numbers are
  kept as exact rationals (Python compares \<^verbatim>\<open>1\<close> and \<^verbatim>\<open>1.0\<close> equal); the rounding
  of binary floating point is not part of the model. A \<^verbatim>\<open>dict\<close> is an association
  list, read with \<open>map_of\<close>.
\<close>

datatype json =
    JNull
  | JBool bool
  | JNum rat
  | JStr string
  | JArr "json list"
  | JObj "(string \<times> json) list"

type_synonym payload = "(string \<times> json) list"

text \<open>\<^verbatim>\<open>d.get(k, default)\<close> and \<^verbatim>\<open>k in d\<close> on a \<^verbatim>\<open>dict\<close>.\<close>

definition dget :: "payload \<Rightarrow> string \<Rightarrow> json \<Rightarrow> json" where
  "dget d k dflt = (case map_of d k of Some v \<Rightarrow> v | None \<Rightarrow> dflt)"

definition has_key :: "string \<Rightarrow> payload \<Rightarrow> bool" where
  "has_key k d = (map_of d k \<noteq> None)"

datatype exn =
    TypeError
  | KeyError
  | IndexError
  | OverflowError
  | HTTPException nat string

text \<open>
  The key under which a value is stored in a Python \<^verbatim>\<open>set\<close>: lists and dicts are
  unhashable (\<^verbatim>\<open>x in s\<close> raises \<^verbatim>\<open>TypeError\<close>), and \<^verbatim>\<open>True\<close>, \<^verbatim>\<open>1\<close> and \<^verbatim>\<open>1.0\<close> are the
  same element.
\<close>

datatype key = KNone | KNum rat | KStr string

fun hash_key :: "json \<Rightarrow> key option" where
  "hash_key JNull = Some KNone"
| "hash_key (JBool b) = Some (KNum (if b then 1 else 0))"
| "hash_key (JNum r) = Some (KNum r)"
| "hash_key (JStr s) = Some (KStr s)"
| "hash_key (JArr xs) = None"
| "hash_key (JObj kvs) = None"

section \<open>Events, clock readings and the conversation manager\<close>

text \<open>
  Time is a \<^verbatim>\<open>datetime\<close> counted in microseconds. An event is the dict built in
  \<^verbatim>\<open>process_webhook_data\<close>; its \<^verbatim>\<open>expires_at\<close> entry is the ISO text of a datetime,
  which \<^verbatim>\<open>datetime.fromisoformat\<close> reads back unchanged, so the field holds the
  datetime itself (\<open>None\<close> when a message has no such key, the case for which
  \<^verbatim>\<open>msg.get("expires_at", now.isoformat())\<close> has its default).
\<close>

type_synonym time = int

record metadata =
  prompt_name :: json
  tokens_used :: json
  latency_ms :: json
  model :: json
  status :: json

record event =
  event_id :: json
  event_type :: string
  timestamp :: json
  user_message :: json
  ai_response :: json
  metadata :: metadata
  expires_at :: "time option"

text \<open>
  \<^verbatim>\<open>datetime.now()\<close> is read up to three times for each request of the loop. A
  \<open>clock\<close> holds the three readings of one iteration as the source uses them:
  \<open>id_ms\<close> is the value of \<^verbatim>\<open>int(datetime.now().timestamp() * 1000)\<close>, \<open>ts_iso\<close>
  the value of \<^verbatim>\<open>datetime.now().isoformat()\<close>, \<open>exp_now\<close> the datetime to which
  \<^verbatim>\<open>timedelta(minutes=2)\<close> is added.
\<close>

record clock =
  id_ms :: int
  ts_iso :: string
  exp_now :: time

definition ttl :: time where
  "ttl = 120000000"

text \<open>\<^verbatim>\<open>str\<close> of a Python \<^verbatim>\<open>int\<close>, for the f-string of the generated id.\<close>

definition digit :: "nat \<Rightarrow> char" where
  "digit d = ''0123456789'' ! d"

fun dec_nat :: "nat \<Rightarrow> string" where
  "dec_nat n = (if n < 10 then [digit n] else dec_nat (n div 10) @ [digit (n mod 10)])"

declare dec_nat.simps [simp del]

definition str_int :: "int \<Rightarrow> string" where
  "str_int i = (if i < 0 then CHR ''-'' # dec_nat (nat (- i)) else dec_nat (nat i))"

text \<open>
  A Python number as a statistic holds it: an \<^verbatim>\<open>int\<close> or a finite \<^verbatim>\<open>float\<close> by its exact
  value, or one of the three values of a \<^verbatim>\<open>float\<close> that are not finite.
\<close>

datatype number = Finite rat | PosInf | NegInf | NaN

record stats =
  total_conversations :: int
  messages_per_minute :: int
  average_response_time :: number
  last_activity :: "string option"

record conversation_manager =
  live_messages :: "event list"
  processed_request_ids :: "key set"
  stats :: stats
  live_requests :: "payload list"

text \<open>\<^verbatim>\<open>ConversationManager.__init__\<close>.\<close>

definition init_manager :: conversation_manager where
  "init_manager =
     \<lparr>live_messages = [], processed_request_ids = {},
      stats = \<lparr>total_conversations = 0, messages_per_minute = 0,
               average_response_time = Finite 0, last_activity = None\<rparr>,
      live_requests = []\<rparr>"

subsection \<open>\<^verbatim>\<open>process_webhook_data\<close>\<close>

text \<open>Lines 126 and 129 to 143: the id of a request and the event built from it.\<close>

definition request_id :: "clock \<Rightarrow> payload \<Rightarrow> json" where
  "request_id c request_data =
     dget request_data ''id'' (JStr (''live_'' @ str_int (id_ms c)))"

definition conversation_event :: "clock \<Rightarrow> payload \<Rightarrow> event" where
  "conversation_event c request_data =
     \<lparr>event_id = request_id c request_data,
      event_type = ''new_message'',
      timestamp = dget request_data ''timestamp'' (JStr (ts_iso c)),
      user_message = dget request_data ''user_message'' (JStr []),
      ai_response = dget request_data ''ai_response'' (JStr []),
      metadata =
        \<lparr>prompt_name = dget request_data ''prompt_name'' (JStr ''unknown''),
         tokens_used = dget request_data ''tokens_used'' (JObj []),
         latency_ms = dget request_data ''latency_ms'' (JNum 0),
         model = dget request_data ''model'' (JStr ''unknown''),
         status = dget request_data ''status'' (JStr ''success'')\<rparr>,
      expires_at = Some (exp_now c + ttl)\<rparr>"

text \<open>
  The \<^verbatim>\<open>for\<close> loop over \<^verbatim>\<open>self.live_requests\<close>. The clock \<open>clk\<close> gives the readings
  of the \<open>i\<close>-th iteration. \<^verbatim>\<open>request_id not in self.processed_request_ids\<close> hashes
  the id and raises \<^verbatim>\<open>TypeError\<close> on a list or a dict; the set has then already
  been updated in place for the requests before, so the loop returns the set it
  reached together with the events or the exception.
\<close>

fun process_loop ::
  "(nat \<Rightarrow> clock) \<Rightarrow> nat \<Rightarrow> payload list \<Rightarrow> event list \<Rightarrow> key set
    \<Rightarrow> (exn + event list) \<times> key set" where
  "process_loop clk i [] new_conversations ids = (Inr new_conversations, ids)"
| "process_loop clk i (request_data # rest) new_conversations ids =
     (case hash_key (request_id (clk i) request_data) of
        None \<Rightarrow> (Inl TypeError, ids)
      | Some k \<Rightarrow>
          if k \<notin> ids
          then process_loop clk (Suc i) rest
                 (new_conversations @ [conversation_event (clk i) request_data])
                 (insert k ids)
          else process_loop clk (Suc i) rest new_conversations ids)"

text \<open>
  The whole method: the \<^verbatim>\<open>except Exception\<close> clause returns \<^verbatim>\<open>[]\<close> and leaves
  \<^verbatim>\<open>self.live_requests\<close> as it was, since line 148 has not been reached.
\<close>

definition process_webhook_data ::
  "(nat \<Rightarrow> clock) \<Rightarrow> conversation_manager \<Rightarrow> event list \<times> conversation_manager" where
  "process_webhook_data clk s =
     (if live_requests s \<noteq> []
      then (case process_loop clk 0 (live_requests s) [] (processed_request_ids s) of
              (Inr new_conversations, ids) \<Rightarrow>
                (new_conversations, s\<lparr>processed_request_ids := ids, live_requests := []\<rparr>)
            | (Inl e, ids) \<Rightarrow> ([], s\<lparr>processed_request_ids := ids\<rparr>))
      else ([], s))"

subsection \<open>\<^verbatim>\<open>add_live_request\<close>\<close>

text \<open>
  The request is appended first; the log line then slices
  \<^verbatim>\<open>request_data.get('user_message', 'No message')[:50]\<close>, which raises unless the
  value is a \<^verbatim>\<open>str\<close> or a \<^verbatim>\<open>list\<close> (the kind of the exception plays no role and is
  recorded as \<open>TypeError\<close>).
\<close>

definition add_live_request ::
  "payload \<Rightarrow> conversation_manager \<Rightarrow> exn option \<times> conversation_manager" where
  "add_live_request request_data s =
     (let s' = s\<lparr>live_requests := live_requests s @ [request_data]\<rparr>
      in case dget request_data ''user_message'' (JStr ''No message'') of
           JStr _ \<Rightarrow> (None, s')
         | JArr _ \<Rightarrow> (None, s')
         | _ \<Rightarrow> (Some TypeError, s'))"

subsection \<open>\<^verbatim>\<open>add_live_messages\<close>, \<^verbatim>\<open>get_live_messages\<close>, \<^verbatim>\<open>get_stats\<close>\<close>

text \<open>
  The filter of lines 169 to 172 and 195 to 198:
  \<^verbatim>\<open>datetime.fromisoformat(msg.get("expires_at", now.isoformat())) > now\<close>.
\<close>

definition is_live :: "time \<Rightarrow> event \<Rightarrow> bool" where
  "is_live now msg = ((case expires_at msg of Some e \<Rightarrow> e | None \<Rightarrow> now) > now)"

text \<open>
  \<^verbatim>\<open>msg["metadata"]["latency_ms"] > 0\<close>: a number is compared, \<^verbatim>\<open>True\<close> and \<^verbatim>\<open>False\<close>
  count as 1 and 0, every other value raises \<^verbatim>\<open>TypeError\<close>.
\<close>

fun num_of :: "json \<Rightarrow> rat option" where
  "num_of (JNum r) = Some r"
| "num_of (JBool b) = Some (if b then 1 else 0)"
| "num_of JNull = None"
| "num_of (JStr s) = None"
| "num_of (JArr xs) = None"
| "num_of (JObj kvs) = None"

text \<open>The list comprehension of lines 183 to 187, left to right.\<close>

fun response_times :: "event list \<Rightarrow> exn + rat list" where
  "response_times [] = Inr []"
| "response_times (msg # messages) =
     (case num_of (latency_ms (metadata msg)) of
        None \<Rightarrow> Inl TypeError
      | Some r \<Rightarrow>
          (case response_times messages of
             Inl e \<Rightarrow> Inl e
           | Inr rs \<Rightarrow> Inr (if r > 0 then r # rs else rs)))"

text \<open>
  Line 189, \<^verbatim>\<open>round(sum(response_times) / len(response_times), 2)\<close>, computes on Python
  numbers. \<^verbatim>\<open>round(x, 2)\<close> of a \<^verbatim>\<open>float\<close> rounds the exact value of \<open>x\<close> to the nearest
  multiple of 1/100, a tie going to the even one, and returns the \<^verbatim>\<open>float\<close> nearest to
  that decimal; the division returns the \<^verbatim>\<open>float\<close> nearest to the quotient. A \<^verbatim>\<open>float\<close> is
  an IEEE double: 53 significant bits, a tie going to the even significand.
\<close>

definition round_half_even :: "rat \<Rightarrow> int" where
  "round_half_even x =
     (let f = \<lfloor>x\<rfloor>; d = x - of_int f
      in if d < 1 / 2 then f
         else if 1 / 2 < d then f + 1
         else if even f then f else f + 1)"

text \<open>The decimal with two places nearest to \<open>x\<close>, as an exact value.\<close>

definition nearest_hundredth :: "rat \<Rightarrow> rat" where
  "nearest_hundredth x = of_int (round_half_even (x * 100)) / 100"

text \<open>\<^verbatim>\<open>int.bit_length\<close>: the number of binary digits of \<open>n\<close>.\<close>

fun bit_length :: "nat \<Rightarrow> nat" where
  "bit_length n = (if n = 0 then 0 else Suc (bit_length (n div 2)))"

declare bit_length.simps [simp del]

text \<open>
  The double nearest to a rational \<open>q\<close> with \<open>1 \<le> q\<close> (and below the largest double).
  With \<open>2 ^ e \<le> q < 2 ^ (e + 1)\<close> the doubles around \<open>q\<close> are the multiples of
  \<open>2 ^ (e - 52)\<close>.
\<close>

definition nearest_double :: "rat \<Rightarrow> rat" where
  "nearest_double q =
     (let e = bit_length (nat \<lfloor>q\<rfloor>) - 1
      in if e \<le> 52
         then of_int (round_half_even (q * 2 ^ (52 - e))) / 2 ^ (52 - e)
         else of_int (round_half_even (q / 2 ^ (e - 52))) * 2 ^ (e - 52))"

text \<open>
  The sum of line 189 is exact, whatever the interpreter and whether a latency was
  decoded as an \<^verbatim>\<open>int\<close> or as a \<^verbatim>\<open>float\<close>, when every latency has an integer value and the
  sum is below \<open>2 ^ 53\<close>: every partial sum is then a double. The list that reaches
  line 189 is not empty and its latencies are greater than 0, so their mean is at
  least 1.
\<close>

definition exact_sum :: "rat list \<Rightarrow> bool" where
  "exact_sum rts =
     (rts \<noteq> [] \<and> list_all (\<lambda>r. 0 < r \<and> of_int \<lfloor>r\<rfloor> = r) rts \<and> sum_list rts < 2 ^ 53)"

text \<open>
  The value of line 189 on the list \<open>rts\<close> of line 183, or the exception it raises.
  When the sum is exact the value is determined: the quotient is rounded to a double,
  that double to two decimals, and the decimal to a double again. Otherwise the
  outcome depends on what the source does not fix (an \<^verbatim>\<open>int\<close> is summed exactly and a
  \<^verbatim>\<open>float\<close> is not, the rounding of a sum of \<^verbatim>\<open>float\<close>s differs between versions of the
  interpreter, a sum of \<^verbatim>\<open>float\<close>s can be infinite, and the division of an \<^verbatim>\<open>int\<close> too
  large for a \<^verbatim>\<open>float\<close> raises \<^verbatim>\<open>OverflowError\<close>); it is the parameter \<open>inexact\<close>.
\<close>

definition rounded_mean :: "(rat list \<Rightarrow> exn + number) \<Rightarrow> rat list \<Rightarrow> exn + number" where
  "rounded_mean inexact rts =
     (if exact_sum rts
      then Inr (Finite (nearest_double (nearest_hundredth
                  (nearest_double (sum_list rts / of_nat (length rts))))))
      else inexact rts)"

text \<open>
  \<open>now\<close> is the reading of line 168, \<open>act_iso\<close> the ISO text of the reading of
  line 177. The comparison of line 186 and the arithmetic of line 189 can raise
  after the live list and the counters have been updated, so the state comes back
  in both cases.
\<close>

definition add_live_messages ::
  "(rat list \<Rightarrow> exn + number) \<Rightarrow> time \<Rightarrow> string \<Rightarrow> event list \<Rightarrow> conversation_manager
    \<Rightarrow> exn option \<times> conversation_manager" where
  "add_live_messages inexact now act_iso messages s =
     (let live = filter (is_live now) (live_messages s @ messages);
          st1 = (stats s)\<lparr>total_conversations :=
                   total_conversations (stats s) + int (length messages)\<rparr>
      in if messages \<noteq> []
         then (let st2 = st1\<lparr>last_activity := Some act_iso,
                             messages_per_minute := int (length live)\<rparr>
               in case response_times messages of
                    Inl e \<Rightarrow> (Some e, s\<lparr>live_messages := live, stats := st2\<rparr>)
                  | Inr rts \<Rightarrow>
                      if rts \<noteq> []
                      then (case rounded_mean inexact rts of
                              Inl e \<Rightarrow> (Some e, s\<lparr>live_messages := live, stats := st2\<rparr>)
                            | Inr a \<Rightarrow>
                                (None, s\<lparr>live_messages := live,
                                         stats := st2\<lparr>average_response_time := a\<rparr>\<rparr>))
                      else (None, s\<lparr>live_messages := live, stats := st2\<rparr>))
         else (None, s\<lparr>live_messages := live, stats := st1\<rparr>))"

definition get_live_messages ::
  "time \<Rightarrow> conversation_manager \<Rightarrow> event list \<times> conversation_manager" where
  "get_live_messages now s =
     (let live = filter (is_live now) (live_messages s)
      in (live, s\<lparr>live_messages := live\<rparr>))"

definition get_stats :: "conversation_manager \<Rightarrow> stats" where
  "get_stats s = stats s"

section \<open>The WebSocket manager\<close>

text \<open>
  A connection is a value of any type \<open>'c\<close>; \<open>fails c\<close> says that
  \<^verbatim>\<open>connection.send_text\<close> raises. A broadcast gives the trace of its send
  attempts in order and the connections left.
\<close>

datatype message =
    NewMessage event
  | StatsUpdate stats
  | LiveMessagesUpdate "event list"
  | Heartbeat string

datatype 'c attempt = Sent 'c message | Raised 'c

fun target :: "'c attempt \<Rightarrow> 'c" where
  "target (Sent c m) = c"
| "target (Raised c) = c"

definition connect :: "'c \<Rightarrow> 'c list \<Rightarrow> 'c list" where
  "connect websocket active_connections = active_connections @ [websocket]"

definition disconnect :: "'c \<Rightarrow> 'c list \<Rightarrow> 'c list" where
  "disconnect websocket active_connections =
     (if websocket \<in> set active_connections
      then remove1 websocket active_connections else active_connections)"

text \<open>The delivery pass of lines 228 to 233: the trace and the list \<^verbatim>\<open>disconnected\<close>.\<close>

fun send_loop :: "('c \<Rightarrow> bool) \<Rightarrow> message \<Rightarrow> 'c list \<Rightarrow> 'c attempt list \<times> 'c list" where
  "send_loop fails m [] = ([], [])"
| "send_loop fails m (connection # rest) =
     (case send_loop fails m rest of
        (trace, disconnected) \<Rightarrow>
          if fails connection
          then (Raised connection # trace, connection # disconnected)
          else (Sent connection m # trace, disconnected))"

definition broadcast ::
  "('c \<Rightarrow> bool) \<Rightarrow> message \<Rightarrow> 'c list \<Rightarrow> 'c attempt list \<times> 'c list" where
  "broadcast fails m active_connections =
     (if active_connections = [] then ([], active_connections)
      else (case send_loop fails m active_connections of
              (trace, disconnected) \<Rightarrow>
                (trace, fold disconnect disconnected active_connections)))"

text \<open>
  The handler of \<^verbatim>\<open>/ws\<close> up to its heartbeat loop, run without interruption: the
  connection is registered, then sent the live list and the statistics. A send that
  raises ends the handler in its \<^verbatim>\<open>except\<close> clause, which unregisters the connection.
  The handler and the background task are asyncio tasks that can take turns at every
  \<^verbatim>\<open>await\<close>; those interleavings are not part of this model.
\<close>

definition websocket_endpoint_open ::
  "('c \<Rightarrow> bool) \<Rightarrow> time \<Rightarrow> 'c \<Rightarrow> conversation_manager \<Rightarrow> 'c list
    \<Rightarrow> 'c attempt list \<times> conversation_manager \<times> 'c list" where
  "websocket_endpoint_open fails now websocket s active_connections =
     (let conns = connect websocket active_connections
      in case get_live_messages now s of
           (live, s') \<Rightarrow>
             if fails websocket
             then ([Raised websocket], s', disconnect websocket conns)
             else ([Sent websocket (LiveMessagesUpdate live),
                    Sent websocket (StatsUpdate (get_stats s'))], s', conns))"

section \<open>One pass of \<^verbatim>\<open>processing_task\<close>\<close>

text \<open>
  The body of the \<^verbatim>\<open>while True\<close> loop up to the sleep: the new state of the
  conversation manager and the messages handed to \<^verbatim>\<open>websocket_manager.broadcast\<close>, in
  order. An exception of \<^verbatim>\<open>add_live_messages\<close> ends the pass in the \<^verbatim>\<open>except\<close> clause
  before anything is broadcast.
\<close>

definition processing_pass ::
  "(rat list \<Rightarrow> exn + number) \<Rightarrow> (nat \<Rightarrow> clock) \<Rightarrow> time \<Rightarrow> string \<Rightarrow> time
    \<Rightarrow> conversation_manager \<Rightarrow> message list \<times> conversation_manager" where
  "processing_pass inexact clk now act_iso now' s =
     (case process_webhook_data clk s of
        (new_messages, s1) \<Rightarrow>
          if new_messages \<noteq> []
          then (case add_live_messages inexact now act_iso new_messages s1 of
                  (Some e, s2) \<Rightarrow> ([], s2)
                | (None, s2) \<Rightarrow>
                    (case get_live_messages now' s2 of
                       (current_messages, s3) \<Rightarrow>
                         (map NewMessage new_messages
                            @ [StatsUpdate (get_stats s2),
                               LiveMessagesUpdate current_messages], s3)))
          else (case get_live_messages now' s1 of
                  (current_messages, s3) \<Rightarrow>
                    ([LiveMessagesUpdate current_messages], s3)))"

section \<open>\<^verbatim>\<open>POST /webhook/conversation\<close>\<close>

text \<open>The validation loop of lines 376 to 379.\<close>

fun validate_required :: "string list \<Rightarrow> payload \<Rightarrow> exn option" where
  "validate_required [] request_data = None"
| "validate_required (field # required_fields) request_data =
     (if \<not> has_key field request_data
      then Some (HTTPException 400 (''Missing required field: '' @ field))
      else validate_required required_fields request_data)"

text \<open>The statements inside the \<^verbatim>\<open>try\<close>; \<open>now_iso\<close> is the ISO text of line 383.\<close>

definition webhook_conversation_body ::
  "string \<Rightarrow> payload \<Rightarrow> conversation_manager \<Rightarrow> (exn + json) \<times> conversation_manager" where
  "webhook_conversation_body now_iso request_data s =
     (case validate_required [''user_message'', ''ai_response''] request_data of
        Some e \<Rightarrow> (Inl e, s)
      | None \<Rightarrow>
          (let request_data' =
                 (if has_key ''timestamp'' request_data then request_data
                  else request_data @ [(''timestamp'', JStr now_iso)])
           in case add_live_request request_data' s of
                (Some e, s') \<Rightarrow> (Inl e, s')
              | (None, s') \<Rightarrow>
                  (Inr (JObj [(''status'', JStr ''success''),
                              (''message'', JStr ''Conversation data received'')]), s')))"

text \<open>
  The handler: \<^verbatim>\<open>except Exception as e\<close> catches whatever the body raised and raises
  \<^verbatim>\<open>HTTPException(status_code=500, detail=str(e))\<close>; \<open>str_exn\<close> is \<^verbatim>\<open>str\<close> on
  exceptions.
\<close>

definition webhook_conversation ::
  "(exn \<Rightarrow> string) \<Rightarrow> string \<Rightarrow> payload \<Rightarrow> conversation_manager
    \<Rightarrow> (exn + json) \<times> conversation_manager" where
  "webhook_conversation str_exn now_iso request_data s =
     (case webhook_conversation_body now_iso request_data s of
        (Inl e, s') \<Rightarrow> (Inl (HTTPException 500 (str_exn e)), s')
      | (Inr r, s') \<Rightarrow> (Inr r, s'))"

text \<open>The status code of the HTTP response the framework sends for a handler's outcome.\<close>

fun status_code :: "exn + json \<Rightarrow> nat" where
  "status_code (Inr r) = 200"
| "status_code (Inl (HTTPException code detail)) = code"
| "status_code (Inl e) = 500"

section \<open>\<^verbatim>\<open>extract_ai_response\<close>\<close>

text \<open>
  The Python operations the method applies to a decoded value: \<^verbatim>\<open>len(v)\<close>,
  \<^verbatim>\<open>v[0]\<close>, \<^verbatim>\<open>'k' in v\<close> and \<^verbatim>\<open>v['k']\<close>, each with the exception it raises on a
  value of the wrong type. On a \<^verbatim>\<open>str\<close>, \<^verbatim>\<open>in\<close> is the substring test and \<^verbatim>\<open>[0]\<close>
  the first character.
\<close>

fun starts_with :: "string \<Rightarrow> string \<Rightarrow> bool" where
  "starts_with [] s = True"
| "starts_with (k # ks) [] = False"
| "starts_with (k # ks) (c # s) = (k = c \<and> starts_with ks s)"

fun contains_str :: "string \<Rightarrow> string \<Rightarrow> bool" where
  "contains_str k [] = (k = [])"
| "contains_str k (c # s) = (starts_with k (c # s) \<or> contains_str k s)"

fun py_len :: "json \<Rightarrow> exn + nat" where
  "py_len (JStr s) = Inr (length s)"
| "py_len (JArr xs) = Inr (length xs)"
| "py_len (JObj kvs) = Inr (length kvs)"
| "py_len v = Inl TypeError"

fun py_first :: "json \<Rightarrow> exn + json" where
  "py_first (JArr []) = Inl IndexError"
| "py_first (JArr (x # xs)) = Inr x"
| "py_first (JStr []) = Inl IndexError"
| "py_first (JStr (c # s)) = Inr (JStr [c])"
| "py_first (JObj kvs) = Inl KeyError"
| "py_first v = Inl TypeError"

fun py_in :: "string \<Rightarrow> json \<Rightarrow> exn + bool" where
  "py_in k (JObj kvs) = Inr (has_key k kvs)"
| "py_in k (JArr xs) = Inr (JStr k \<in> set xs)"
| "py_in k (JStr s) = Inr (contains_str k s)"
| "py_in k v = Inl TypeError"

fun py_item :: "json \<Rightarrow> string \<Rightarrow> exn + json" where
  "py_item (JObj kvs) k = (case map_of kvs k of Some v \<Rightarrow> Inr v | None \<Rightarrow> Inl KeyError)"
| "py_item v k = Inl TypeError"

definition try_bind :: "exn + 'a \<Rightarrow> ('a \<Rightarrow> exn + 'b) \<Rightarrow> exn + 'b" where
  "try_bind r f = (case r of Inl e \<Rightarrow> Inl e | Inr x \<Rightarrow> f x)"

text \<open>
  Lines 75 to 80 for a dict \<open>d\<close>: \<open>Inr (Some v)\<close> is \<^verbatim>\<open>return v\<close>, \<open>Inr None\<close> falls
  through to the next \<^verbatim>\<open>if\<close>, \<open>Inl e\<close> is an exception raised on the way.
\<close>

definition choices_branch :: "payload \<Rightarrow> exn + json option" where
  "choices_branch d =
     (if has_key ''choices'' d
      then (let choices = dget d ''choices'' JNull
            in try_bind (py_len choices) (\<lambda>n.
                 if 0 < n
                 then try_bind (py_first choices) (\<lambda>choice.
                        try_bind (py_in ''message'' choice) (\<lambda>has_message.
                        try_bind (if has_message
                                  then try_bind (py_item choice ''message'') (py_in ''content'')
                                  else Inr False) (\<lambda>has_content.
                          if has_content
                          then try_bind (py_item choice ''message'') (\<lambda>msg.
                               try_bind (py_item msg ''content'') (\<lambda>v. Inr (Some v)))
                          else try_bind (py_in ''text'' choice) (\<lambda>has_text.
                                 if has_text
                                 then try_bind (py_item choice ''text'') (\<lambda>v. Inr (Some v))
                                 else Inr None))))
                 else Inr None))
      else Inr None)"

text \<open>
  The body of the \<^verbatim>\<open>try\<close>. \<open>str_of\<close> is Python's \<^verbatim>\<open>str\<close> on decoded values. The
  method returns the value it finds, which need not be a \<^verbatim>\<open>str\<close>.
\<close>

definition extract_body :: "(json \<Rightarrow> string) \<Rightarrow> json \<Rightarrow> exn + json" where
  "extract_body str_of response_data =
     (case response_data of
        JObj d \<Rightarrow>
          try_bind (choices_branch d) (\<lambda>r.
            case r of
              Some v \<Rightarrow> Inr v
            | None \<Rightarrow>
                if has_key ''content'' d then Inr (dget d ''content'' JNull)
                else if has_key ''message'' d
                then Inr (JStr (str_of (dget d ''message'' JNull)))
                else Inr (JStr (str_of response_data)))
      | JStr s \<Rightarrow> Inr (JStr s)
      | _ \<Rightarrow> Inr (JStr (str_of response_data)))"

definition extract_ai_response :: "(json \<Rightarrow> string) \<Rightarrow> json \<Rightarrow> json" where
  "extract_ai_response str_of response_data =
     (case extract_body str_of response_data of
        Inl e \<Rightarrow> JStr ''Response parsing error''
      | Inr v \<Rightarrow> v)"

section \<open>Sequences of operations on the conversation manager\<close>

text \<open>
  Every method that writes to a \<^verbatim>\<open>ConversationManager\<close>, the webhook handler and the
  pass of the background task, as one step on the state.
\<close>

datatype op =
    AddLiveRequest payload
  | WebhookConversation string payload
  | ProcessWebhookData "nat \<Rightarrow> clock"
  | AddLiveMessages time string "event list"
  | GetLiveMessages time
  | GetStats
  | ProcessingPass "nat \<Rightarrow> clock" time string time

fun apply_op ::
  "(rat list \<Rightarrow> exn + number) \<Rightarrow> op \<Rightarrow> conversation_manager \<Rightarrow> conversation_manager" where
  "apply_op inexact (AddLiveRequest request_data) s = snd (add_live_request request_data s)"
| "apply_op inexact (WebhookConversation now_iso request_data) s =
     snd (webhook_conversation_body now_iso request_data s)"
| "apply_op inexact (ProcessWebhookData clk) s = snd (process_webhook_data clk s)"
| "apply_op inexact (AddLiveMessages now act_iso messages) s =
     snd (add_live_messages inexact now act_iso messages s)"
| "apply_op inexact (GetLiveMessages now) s = snd (get_live_messages now s)"
| "apply_op inexact (GetStats) s = s"
| "apply_op inexact (ProcessingPass clk now act_iso now') s =
     snd (processing_pass inexact clk now act_iso now' s)"

definition run ::
  "(rat list \<Rightarrow> exn + number) \<Rightarrow> op list \<Rightarrow> conversation_manager \<Rightarrow> conversation_manager" where
  "run inexact ops s = fold (apply_op inexact) ops s"

text \<open>
  The readings of \<^verbatim>\<open>datetime.now()\<close> at which an operation filters the live list
  (lines 168 and 194), in the order in which it takes them.
\<close>

fun op_times :: "op \<Rightarrow> time list" where
  "op_times (AddLiveMessages now act_iso messages) = [now]"
| "op_times (GetLiveMessages now) = [now]"
| "op_times (ProcessingPass clk now act_iso now') = [now, now']"
| "op_times x = []"

section \<open>Concrete inputs\<close>

text \<open>
  A clock whose readings do not move during a batch, a clock that advances by one
  millisecond with every request, and requests with and without an id.
\<close>

definition frozen_clock :: "nat \<Rightarrow> clock" where
  "frozen_clock i = \<lparr>id_ms = 1700000000000, ts_iso = ''2023-11-14T22:13:20'', exp_now = 0\<rparr>"

definition stepping_clock :: "nat \<Rightarrow> clock" where
  "stepping_clock i =
     \<lparr>id_ms = 1700000000000 + int i, ts_iso = ''2023-11-14T22:13:20'',
      exp_now = 1000 * int i\<rparr>"

definition hi_hello :: payload where
  "hi_hello = [(''user_message'', JStr ''hi''), (''ai_response'', JStr ''hello'')]"

definition how_fine :: payload where
  "how_fine = [(''user_message'', JStr ''how are you''), (''ai_response'', JStr ''fine'')]"

definition with_id :: "json \<Rightarrow> payload" where
  "with_id v = [(''id'', v), (''user_message'', JStr ''hi''), (''ai_response'', JStr ''hello'')]"



text \<open>A stand-in for \<^verbatim>\<open>str\<close> where its text does not matter.\<close>

definition opaque_str :: "json \<Rightarrow> string" where
  "opaque_str v = ''?''"

definition queued :: "payload list \<Rightarrow> conversation_manager" where
  "queued requests = init_manager\<lparr>live_requests := requests\<rparr>"

definition exn_text :: "exn \<Rightarrow> string" where
  "exn_text e = (case e of HTTPException code detail \<Rightarrow> detail | _ \<Rightarrow> ''error'')"

text \<open>
  Two outcomes of line 189 outside the exact case: the division raises (an \<^verbatim>\<open>int\<close> too
  large for a \<^verbatim>\<open>float\<close>), and a given value comes back.
\<close>

definition overflows :: "rat list \<Rightarrow> exn + number" where
  "overflows rts = Inl OverflowError"



definition only_fails :: "nat \<Rightarrow> nat \<Rightarrow> bool" where
  "only_fails k c = (c = k)"

definition never_fails :: "nat \<Rightarrow> bool" where
  "never_fails c = False"

section \<open>The webhook handler answers 500 for a missing field\<close>

lemma validate_required_missing:
  "\<not> has_key ''user_message'' request_data \<or> \<not> has_key ''ai_response'' request_data
    \<Longrightarrow> \<exists>field. validate_required [''user_message'', ''ai_response''] request_data
          = Some (HTTPException 400 (''Missing required field: '' @ field))"
  by auto

text \<open>
  C10. For every payload of \<^verbatim>\<open>POST /webhook/conversation\<close> that lacks \<^verbatim>\<open>user_message\<close>
  or \<^verbatim>\<open>ai_response\<close>, the validation loop raises an \<^verbatim>\<open>HTTPException\<close> with status 400
  inside the \<^verbatim>\<open>try\<close>, the handler's own \<^verbatim>\<open>except Exception\<close> clause catches it, and
  the response has status 500, not 400; nothing is queued.
\<close>

theorem webhook_conversation_missing_field_500:
  assumes "\<not> has_key ''user_message'' request_data \<or> \<not> has_key ''ai_response'' request_data"
  shows "(\<exists>field. fst (webhook_conversation_body now_iso request_data s)
             = Inl (HTTPException 400 (''Missing required field: '' @ field)))
       \<and> status_code (fst (webhook_conversation str_exn now_iso request_data s)) = 500
       \<and> status_code (fst (webhook_conversation str_exn now_iso request_data s)) \<noteq> 400
       \<and> snd (webhook_conversation str_exn now_iso request_data s) = s"
proof -
  from validate_required_missing [OF assms] obtain field where
    v: "validate_required [''user_message'', ''ai_response''] request_data
          = Some (HTTPException 400 (''Missing required field: '' @ field))"
    by blast
  have b: "webhook_conversation_body now_iso request_data s
             = (Inl (HTTPException 400 (''Missing required field: '' @ field)), s)"
    unfolding webhook_conversation_body_def using v by simp
  have h: "webhook_conversation str_exn now_iso request_data s
             = (Inl (HTTPException 500
                  (str_exn (HTTPException 400 (''Missing required field: '' @ field)))), s)"
    unfolding webhook_conversation_def using b by simp
  show ?thesis using b h by simp
qed

theorem webhook_conversation_missing_field_500_witness:
  "(\<exists>field. fst (webhook_conversation_body ''t'' [(''user_message'', JStr ''hi'')] init_manager)
             = Inl (HTTPException 400 (''Missing required field: '' @ field)))
   \<and> status_code (fst (webhook_conversation exn_text ''t''
         [(''user_message'', JStr ''hi'')] init_manager)) = 500"
  using webhook_conversation_missing_field_500
          [of "[(''user_message'', JStr ''hi'')]" "''t''" init_manager exn_text]
  by (simp add: has_key_def)

section \<open>The counter of conversations never decreases\<close>

lemma stats_process_webhook_data: "stats (snd (process_webhook_data clk s)) = stats s"
  by (simp add: process_webhook_data_def split: prod.splits sum.splits)

lemma stats_add_live_request: "stats (snd (add_live_request request_data s)) = stats s"
  by (simp add: add_live_request_def Let_def split: json.splits)

lemma stats_webhook_conversation_body:
  "stats (snd (webhook_conversation_body now_iso request_data s)) = stats s"
proof (cases "validate_required [''user_message'', ''ai_response''] request_data")
  case None
  define rd where "rd = (if has_key ''timestamp'' request_data then request_data
                  else request_data @ [(''timestamp'', JStr now_iso)])"
  obtain r s' where a: "add_live_request rd s = (r, s')" by (cases "add_live_request rd s")
  have "stats s' = stats s" using stats_add_live_request [of rd s] a by simp
  moreover have "snd (webhook_conversation_body now_iso request_data s) = s'"
    using None a unfolding webhook_conversation_body_def Let_def rd_def [symmetric]
    by (simp split: option.splits)
  ultimately show ?thesis by simp
next
  case (Some e)
  then show ?thesis by (simp add: webhook_conversation_body_def)
qed

lemma stats_get_live_messages: "stats (snd (get_live_messages now s)) = stats s"
  by (simp add: get_live_messages_def Let_def)

lemma total_add_live_messages:
  "total_conversations (stats (snd (add_live_messages inexact now act_iso messages s)))
     = total_conversations (stats s) + int (length messages)"
  by (simp add: add_live_messages_def Let_def split: sum.splits)

lemma total_processing_pass:
  "total_conversations (stats s)
     \<le> total_conversations (stats (snd (processing_pass inexact clk now act_iso now' s)))"
proof -
  obtain new s1 where p: "process_webhook_data clk s = (new, s1)"
    by (cases "process_webhook_data clk s")
  have s1: "stats s1 = stats s" using stats_process_webhook_data [of clk s] p by simp
  obtain r s2 where a: "add_live_messages inexact now act_iso new s1 = (r, s2)"
    by (cases "add_live_messages inexact now act_iso new s1")
  have s2: "total_conversations (stats s2) = total_conversations (stats s) + int (length new)"
    using total_add_live_messages [of inexact now act_iso new s1] a s1 by simp
  have g1: "stats (snd (get_live_messages now' s1)) = stats s"
    using stats_get_live_messages s1 by simp
  have g2: "stats (snd (get_live_messages now' s2)) = stats s2"
    using stats_get_live_messages by simp
  show ?thesis
    using p a s2 g1 g2
    by (auto simp: processing_pass_def split: prod.splits option.splits)
qed

lemma total_apply_op:
  "total_conversations (stats s) \<le> total_conversations (stats (apply_op inexact x s))"
proof (cases x)
  case (ProcessingPass clk now act_iso now')
  then show ?thesis using total_processing_pass by simp
qed (simp_all add: stats_process_webhook_data stats_add_live_request
       stats_webhook_conversation_body stats_get_live_messages total_add_live_messages)

lemma total_fold:
  "total_conversations (stats s) \<le> total_conversations (stats (fold (apply_op inexact) ops s))"
proof (induction ops arbitrary: s)
  case Nil
  show ?case by simp
next
  case (Cons x xs)
  have "total_conversations (stats s) \<le> total_conversations (stats (apply_op inexact x s))"
    by (rule total_apply_op)
  also have "\<dots> \<le> total_conversations (stats (fold (apply_op inexact) xs (apply_op inexact x s)))"
    by (rule Cons.IH)
  finally show ?case by simp
qed

text \<open>
  C7. \<^verbatim>\<open>total_conversations\<close> never decreases: \<^verbatim>\<open>add_live_messages\<close> adds the length of
  its batch to it (also when the latency comparison raises afterwards), and after any
  sequence of operations on the conversation manager the counter is at least what it
  was before.
\<close>

theorem total_conversations_monotone:
  "total_conversations (stats (snd (add_live_messages inexact now act_iso messages s)))
     = total_conversations (stats s) + int (length messages)
   \<and> total_conversations (stats s) \<le> total_conversations (stats (run inexact ops s))"
  by (simp add: total_add_live_messages total_fold run_def)

section \<open>A failing subscriber does not stop the broadcast\<close>

lemma send_loop_disconnected: "snd (send_loop fails m cs) = filter fails cs"
  by (induction cs) (auto split: prod.splits)

lemma send_loop_trace:
  "fst (send_loop fails m cs) = map (\<lambda>c. if fails c then Raised c else Sent c m) cs"
  by (induction cs) (auto split: prod.splits)

lemma fold_disconnect_Cons:
  "\<forall>d \<in> set ds. d \<noteq> c \<Longrightarrow> fold disconnect ds (c # xs) = c # fold disconnect ds xs"
  by (induction ds arbitrary: xs) (auto simp: disconnect_def)

lemma fold_disconnect_filter:
  "fold disconnect (filter fails cs) cs = filter (\<lambda>c. \<not> fails c) cs"
proof (induction cs)
  case Nil
  show ?case by simp
next
  case (Cons c cs)
  show ?case
  proof (cases "fails c")
    case True
    then show ?thesis using Cons.IH by (simp add: disconnect_def)
  next
    case False
    then have "\<forall>d \<in> set (filter fails cs). d \<noteq> c" by auto
    from fold_disconnect_Cons [OF this] False Cons.IH show ?thesis by simp
  qed
qed

lemma broadcast_eq:
  "broadcast fails m cs =
     (map (\<lambda>c. if fails c then Raised c else Sent c m) cs, filter (\<lambda>c. \<not> fails c) cs)"
proof (cases cs)
  case Nil
  then show ?thesis by (simp add: broadcast_def)
next
  case (Cons c cs')
  obtain tr dis where sl: "send_loop fails m cs = (tr, dis)"
    by (cases "send_loop fails m cs")
  have "tr = map (\<lambda>c. if fails c then Raised c else Sent c m) cs"
    using send_loop_trace [of fails m cs] sl by simp
  moreover have "dis = filter fails cs"
    using send_loop_disconnected [of fails m cs] sl by simp
  ultimately show ?thesis
    using Cons sl fold_disconnect_filter [of fails cs] by (simp add: broadcast_def)
qed

text \<open>
  C4. Let \<open>k\<close> be a registered connection whose \<^verbatim>\<open>send_text\<close> raises. The delivery pass
  of \<^verbatim>\<open>broadcast\<close> still attempts every registered connection, in order, the ones after
  \<open>k\<close> included; every connection whose send does not raise is sent the message and
  stays registered; \<open>k\<close> is removed, and the connections left are exactly those whose
  send did not raise; a later broadcast makes no attempt on \<open>k\<close>.
\<close>

theorem broadcast_failure_isolation:
  assumes "k \<in> set active_connections" and "fails k"
  shows "map target (fst (broadcast fails m active_connections)) = active_connections
       \<and> (\<forall>c \<in> set active_connections. \<not> fails c \<longrightarrow>
             Sent c m \<in> set (fst (broadcast fails m active_connections))
             \<and> c \<in> set (snd (broadcast fails m active_connections)))
       \<and> Raised k \<in> set (fst (broadcast fails m active_connections))
       \<and> k \<notin> set (snd (broadcast fails m active_connections))
       \<and> snd (broadcast fails m active_connections)
            = filter (\<lambda>c. \<not> fails c) active_connections
       \<and> k \<notin> target ` set (fst (broadcast fails' m'
                                   (snd (broadcast fails m active_connections))))"
proof -
  let ?tr = "map (\<lambda>c. if fails c then Raised c else Sent c m) active_connections"
  let ?left = "filter (\<lambda>c. \<not> fails c) active_connections"
  have b: "broadcast fails m active_connections = (?tr, ?left)"
    by (rule broadcast_eq)
  have t: "map target ?tr = active_connections"
    by (induction active_connections) auto
  have d: "\<forall>c \<in> set active_connections. \<not> fails c \<longrightarrow> Sent c m \<in> set ?tr \<and> c \<in> set ?left"
    by auto
  have r: "Raised k \<in> set ?tr"
    using assms by (auto simp: image_iff)
  have n: "k \<notin> set ?left"
    using assms by simp
  have "map target (fst (broadcast fails' m' ?left)) = ?left"
    unfolding broadcast_eq by (induction active_connections) auto
  then have l: "target ` set (fst (broadcast fails' m' ?left)) = set ?left"
    by (metis set_map)
  show ?thesis
    unfolding b fst_conv snd_conv using t d r n l by blast
qed

theorem broadcast_failure_isolation_witness:
  "map target (fst (broadcast (only_fails 2) (Heartbeat ''t'') [1, 2, 3])) = [1, 2, 3]
   \<and> Sent 3 (Heartbeat ''t'') \<in> set (fst (broadcast (only_fails 2) (Heartbeat ''t'') [1, 2, 3]))
   \<and> snd (broadcast (only_fails 2) (Heartbeat ''t'') [1, 2, 3]) = [1, 3]
   \<and> 2 \<notin> target ` set (fst (broadcast never_fails (Heartbeat ''u'')
                               (snd (broadcast (only_fails 2) (Heartbeat ''t'') [1, 2, 3]))))"
  using broadcast_failure_isolation
          [of 2 "[1, 2, 3]" "only_fails 2" "Heartbeat ''t''" never_fails "Heartbeat ''u''"]
  by (simp add: only_fails_def never_fails_def broadcast_def disconnect_def)

section \<open>Admission is idempotent in the id\<close>

lemma request_id_given: "map_of p ''id'' = Some v \<Longrightarrow> request_id c p = v"
  by (simp add: request_id_def dget_def)

lemma live_get_live_messages:
  "fst (get_live_messages now s) = filter (is_live now) (live_messages s)"
  "live_messages (snd (get_live_messages now s)) = filter (is_live now) (live_messages s)"
  by (simp_all add: get_live_messages_def Let_def)

lemma processing_pass_nothing_new:
  assumes "process_webhook_data clk s = ([], s1)"
  shows "processing_pass inexact clk now act_iso now' s
           = ([LiveMessagesUpdate (filter (is_live now') (live_messages s1))],
              s1\<lparr>live_messages := filter (is_live now') (live_messages s1)\<rparr>)"
  using assms by (simp add: processing_pass_def get_live_messages_def Let_def)

text \<open>
  C2. A request whose id, given or generated, is already in \<^verbatim>\<open>processed_request_ids\<close>
  is skipped by the loop, with the events and the set as they were. Let two requests
  carry the same hashable id. When the id is in the set, a pass over a queue holding
  one of them returns no event, broadcasts only the live list and does not make the
  live list longer. When the id is new, a batch with both requests yields exactly one
  event, and so do two successive batches with one request each: the second returns
  nothing and leaves the state of the first.
\<close>

theorem idempotent_admission:
  assumes "map_of p ''id'' = Some v" and "map_of p' ''id'' = Some v"
      and "hash_key v = Some k"
  shows "(hash_key (request_id (clk i) q) = Some k' \<and> k' \<in> ids \<longrightarrow>
            process_loop clk i (q # rest) new ids = process_loop clk (Suc i) rest new ids)
       \<and> (k \<in> processed_request_ids s \<and> live_requests s = [p] \<longrightarrow>
            process_webhook_data clk s = ([], s\<lparr>live_requests := []\<rparr>)
            \<and> fst (processing_pass inexact clk now act_iso now' s)
                = [LiveMessagesUpdate (filter (is_live now') (live_messages s))]
            \<and> length (live_messages (snd (processing_pass inexact clk now act_iso now' s)))
                \<le> length (live_messages s))
       \<and> (k \<notin> processed_request_ids s \<and> live_requests s = [p, p'] \<longrightarrow>
            fst (process_webhook_data clk s) = [conversation_event (clk 0) p])
       \<and> (k \<notin> processed_request_ids s \<and> live_requests s = [p] \<longrightarrow>
            fst (process_webhook_data clk s) = [conversation_event (clk 0) p]
            \<and> process_webhook_data clk'
                 (snd (add_live_request p' (snd (process_webhook_data clk s))))
                = ([], snd (process_webhook_data clk s)))"
proof -
  have rp: "\<And>c. request_id c p = v" and rp': "\<And>c. request_id c p' = v"
    using assms by (simp_all add: request_id_given)
  have A: "hash_key (request_id (clk i) q) = Some k' \<and> k' \<in> ids \<longrightarrow>
            process_loop clk i (q # rest) new ids = process_loop clk (Suc i) rest new ids"
    by simp
  have B: "k \<in> processed_request_ids s \<and> live_requests s = [p] \<longrightarrow>
            process_webhook_data clk s = ([], s\<lparr>live_requests := []\<rparr>)
            \<and> fst (processing_pass inexact clk now act_iso now' s)
                = [LiveMessagesUpdate (filter (is_live now') (live_messages s))]
            \<and> length (live_messages (snd (processing_pass inexact clk now act_iso now' s)))
                \<le> length (live_messages s)"
  proof
    assume h: "k \<in> processed_request_ids s \<and> live_requests s = [p]"
    then have pw: "process_webhook_data clk s = ([], s\<lparr>live_requests := []\<rparr>)"
      using rp assms(3) by (simp add: process_webhook_data_def)
    from processing_pass_nothing_new [OF pw, of inexact now act_iso now']
    show "process_webhook_data clk s = ([], s\<lparr>live_requests := []\<rparr>)
            \<and> fst (processing_pass inexact clk now act_iso now' s)
                = [LiveMessagesUpdate (filter (is_live now') (live_messages s))]
            \<and> length (live_messages (snd (processing_pass inexact clk now act_iso now' s)))
                \<le> length (live_messages s)"
      using pw by simp
  qed
  have C: "k \<notin> processed_request_ids s \<and> live_requests s = [p, p'] \<longrightarrow>
            fst (process_webhook_data clk s) = [conversation_event (clk 0) p]"
    using rp rp' assms(3) by (simp add: process_webhook_data_def)
  have D: "k \<notin> processed_request_ids s \<and> live_requests s = [p] \<longrightarrow>
            fst (process_webhook_data clk s) = [conversation_event (clk 0) p]
            \<and> process_webhook_data clk'
                 (snd (add_live_request p' (snd (process_webhook_data clk s))))
                = ([], snd (process_webhook_data clk s))"
  proof
    assume h: "k \<notin> processed_request_ids s \<and> live_requests s = [p]"
    let ?s1 = "s\<lparr>processed_request_ids := insert k (processed_request_ids s),
                  live_requests := []\<rparr>"
    have pw: "process_webhook_data clk s = ([conversation_event (clk 0) p], ?s1)"
      using h rp assms(3) by (simp add: process_webhook_data_def)
    have q: "snd (add_live_request p' ?s1) = ?s1\<lparr>live_requests := [p']\<rparr>"
      by (simp add: add_live_request_def Let_def split: json.splits)
    have "process_webhook_data clk' (?s1\<lparr>live_requests := [p']\<rparr>) = ([], ?s1)"
      using rp' assms(3) by (simp add: process_webhook_data_def)
    then show "fst (process_webhook_data clk s) = [conversation_event (clk 0) p]
            \<and> process_webhook_data clk'
                 (snd (add_live_request p' (snd (process_webhook_data clk s))))
                = ([], snd (process_webhook_data clk s))"
      using pw q by simp
  qed
  show ?thesis using A B C D by blast
qed

theorem idempotent_admission_witness:
  "map_of (with_id (JStr ''a'')) ''id'' = Some (JStr ''a'')
   \<and> hash_key (JStr ''a'') = Some (KStr ''a'')
   \<and> fst (process_webhook_data frozen_clock
             (queued [with_id (JStr ''a''), with_id (JStr ''a'')]))
        = [conversation_event (frozen_clock 0) (with_id (JStr ''a''))]
   \<and> process_webhook_data frozen_clock
        (snd (add_live_request (with_id (JStr ''a''))
           (snd (process_webhook_data frozen_clock (queued [with_id (JStr ''a'')])))))
        = ([], snd (process_webhook_data frozen_clock (queued [with_id (JStr ''a'')])))"
  using idempotent_admission
          [where p = "with_id (JStr ''a'')" and v = "JStr ''a''" and p' = "with_id (JStr ''a'')"
             and k = "KStr ''a''" and clk = frozen_clock and clk' = frozen_clock
             and s = "queued [with_id (JStr ''a''), with_id (JStr ''a'')]"]
        idempotent_admission
          [where p = "with_id (JStr ''a'')" and v = "JStr ''a''" and p' = "with_id (JStr ''a'')"
             and k = "KStr ''a''" and clk = frozen_clock and clk' = frozen_clock
             and s = "queued [with_id (JStr ''a'')]"]
  by (simp add: with_id_def queued_def init_manager_def)

section \<open>Events leave the live list two minutes after they are built\<close>

lemma live_add_live_messages:
  "live_messages (snd (add_live_messages inexact now act_iso messages s))
     = filter (is_live now) (live_messages s @ messages)"
  by (simp add: add_live_messages_def Let_def split: sum.splits)

lemma live_process_webhook_data:
  "live_messages (snd (process_webhook_data clk s)) = live_messages s"
  by (simp add: process_webhook_data_def split: prod.splits sum.splits)

lemma live_add_live_request:
  "live_messages (snd (add_live_request request_data s)) = live_messages s"
  by (simp add: add_live_request_def Let_def split: json.splits)

lemma live_webhook_conversation_body:
  "live_messages (snd (webhook_conversation_body now_iso request_data s)) = live_messages s"
proof (cases "validate_required [''user_message'', ''ai_response''] request_data")
  case None
  define rd where "rd = (if has_key ''timestamp'' request_data then request_data
                  else request_data @ [(''timestamp'', JStr now_iso)])"
  obtain r s' where a: "add_live_request rd s = (r, s')" by (cases "add_live_request rd s")
  have "live_messages s' = live_messages s" using live_add_live_request [of rd s] a by simp
  moreover have "snd (webhook_conversation_body now_iso request_data s) = s'"
    using None a unfolding webhook_conversation_body_def Let_def rd_def [symmetric]
    by (simp split: option.splits)
  ultimately show ?thesis by simp
next
  case (Some e)
  then show ?thesis by (simp add: webhook_conversation_body_def)
qed

lemma is_live_expires: "expires_at e = Some x \<Longrightarrow> is_live t e \<longleftrightarrow> t < x"
  by (simp add: is_live_def)

lemma processing_pass_keeps:
  assumes x: "expires_at e = Some x" and t: "now < x" "now' < x"
      and e: "e \<in> set (live_messages s)"
  shows "e \<in> set (live_messages (snd (processing_pass inexact clk now act_iso now' s)))"
proof -
  obtain new s1 where p: "process_webhook_data clk s = (new, s1)"
    by (cases "process_webhook_data clk s")
  have e1: "e \<in> set (live_messages s1)"
    using live_process_webhook_data [of clk s] p e by simp
  obtain r s2 where a: "add_live_messages inexact now act_iso new s1 = (r, s2)"
    by (cases "add_live_messages inexact now act_iso new s1")
  have e2: "e \<in> set (live_messages s2)"
    using live_add_live_messages [of inexact now act_iso new s1] a e1 t is_live_expires [OF x]
    by simp
  have g1: "e \<in> set (live_messages (snd (get_live_messages now' s1)))"
    using e1 t is_live_expires [OF x] by (simp add: live_get_live_messages)
  have g2: "e \<in> set (live_messages (snd (get_live_messages now' s2)))"
    using e2 t is_live_expires [OF x] by (simp add: live_get_live_messages)
  show ?thesis
    using p a e2 g1 g2
    by (auto simp: processing_pass_def split: prod.splits option.splits)
qed

lemma apply_op_keeps:
  assumes x: "expires_at e = Some x" and t: "\<forall>t \<in> set (op_times y). t < x"
      and e: "e \<in> set (live_messages s)"
  shows "e \<in> set (live_messages (apply_op inexact y s))"
proof (cases y)
  case (ProcessingPass clk now act_iso now')
  then show ?thesis using processing_pass_keeps [OF x _ _ e] t by simp
next
  case (AddLiveMessages now act_iso messages)
  then show ?thesis
    using t e is_live_expires [OF x] by (simp add: live_add_live_messages)
next
  case (GetLiveMessages now)
  then show ?thesis
    using t e is_live_expires [OF x] by (simp add: live_get_live_messages)
qed (simp_all add: e live_process_webhook_data live_add_live_request
       live_webhook_conversation_body)

lemma run_keeps:
  assumes x: "expires_at e = Some x"
  shows "\<forall>t \<in> set (concat (map op_times ops)). t < x \<Longrightarrow> e \<in> set (live_messages s)
          \<Longrightarrow> e \<in> set (live_messages (fold (apply_op inexact) ops s))"
proof (induction ops arbitrary: s)
  case Nil
  then show ?case by simp
next
  case (Cons y ys)
  have "e \<in> set (live_messages (apply_op inexact y s))"
    using apply_op_keeps [OF x _ Cons.prems(2)] Cons.prems(1) by simp
  then show ?case using Cons.IH Cons.prems(1) by simp
qed

lemma process_loop_events:
  "process_loop clk i reqs acc ids = (Inr new, ids') \<Longrightarrow> e \<in> set new
    \<Longrightarrow> e \<in> set acc \<or> (\<exists>j < length reqs. e = conversation_event (clk (i + j)) (reqs ! j))"
proof (induction reqs arbitrary: i acc ids)
  case Nil
  then show ?case by simp
next
  case (Cons p ps)
  from Cons.prems(1) obtain k where k: "hash_key (request_id (clk i) p) = Some k"
    by (cases "hash_key (request_id (clk i) p)") auto
  show ?case
  proof (cases "k \<in> ids")
    case True
    then have "process_loop clk (Suc i) ps acc ids = (Inr new, ids')"
      using Cons.prems(1) k by simp
    from Cons.IH [OF this Cons.prems(2)] show ?thesis
    proof
      assume "e \<in> set acc" then show ?thesis by simp
    next
      assume "\<exists>j < length ps. e = conversation_event (clk (Suc i + j)) (ps ! j)"
      then obtain j where "j < length ps" "e = conversation_event (clk (Suc i + j)) (ps ! j)"
        by blast
      then have "Suc j < length (p # ps) \<and> e = conversation_event (clk (i + Suc j)) ((p # ps) ! Suc j)"
        by simp
      then show ?thesis by blast
    qed
  next
    case False
    then have "process_loop clk (Suc i) ps (acc @ [conversation_event (clk i) p]) (insert k ids)
                 = (Inr new, ids')"
      using Cons.prems(1) k by simp
    from Cons.IH [OF this Cons.prems(2)] show ?thesis
    proof
      assume "e \<in> set (acc @ [conversation_event (clk i) p])"
      then have "e \<in> set acc \<or> (0 < length (p # ps) \<and> e = conversation_event (clk (i + 0)) ((p # ps) ! 0))"
        by auto
      then show ?thesis by blast
    next
      assume "\<exists>j < length ps. e = conversation_event (clk (Suc i + j)) (ps ! j)"
      then obtain j where "j < length ps" "e = conversation_event (clk (Suc i + j)) (ps ! j)"
        by blast
      then have "Suc j < length (p # ps) \<and> e = conversation_event (clk (i + Suc j)) ((p # ps) ! Suc j)"
        by simp
      then show ?thesis by blast
    qed
  qed
qed

lemma process_webhook_data_events:
  assumes "process_webhook_data clk s = (new, s1)" and "e \<in> set new"
  shows "\<exists>j < length (live_requests s). e = conversation_event (clk j) (live_requests s ! j)"
proof -
  have ne: "live_requests s \<noteq> []"
    using assms by (auto simp: process_webhook_data_def split: if_splits)
  obtain r ids' where l: "process_loop clk 0 (live_requests s) [] (processed_request_ids s) = (r, ids')"
    by (cases "process_loop clk 0 (live_requests s) [] (processed_request_ids s)")
  have "r = Inr new"
    using assms ne l by (cases r) (auto simp: process_webhook_data_def)
  with l process_loop_events [of clk 0 "live_requests s" "[]" "processed_request_ids s" new ids' e]
    assms(2)
  show ?thesis by simp
qed

text \<open>
  C3. Let \<open>e\<close> be an event returned by \<^verbatim>\<open>process_webhook_data\<close> and handed to
  \<^verbatim>\<open>add_live_messages\<close> at time \<open>a\<close>. It was built from a queued request at some
  reading \<open>T\<close> of the clock, with \<^verbatim>\<open>expires_at\<close> two minutes after \<open>T\<close>. After any
  operations on the conversation manager, a read by \<^verbatim>\<open>get_live_messages\<close> at time \<open>t\<close>
  holds \<open>e\<close> exactly when \<open>t\<close> is before \<open>T\<close> plus two minutes, provided the clock
  readings of the admission, of the operations and of the read do not go backwards.
\<close>

theorem ttl_correctness:
  assumes "process_webhook_data clk s0 = (new, s1)" and "e \<in> set new"
      and "add_live_messages inexact a act_iso new s1 = (r, s2)"
      and "sorted (a # concat (map op_times ops) @ [t])"
  shows "\<exists>j < length (live_requests s0).
           e = conversation_event (clk j) (live_requests s0 ! j)
         \<and> expires_at e = Some (exp_now (clk j) + 120000000)
         \<and> (e \<in> set (fst (get_live_messages t (run inexact ops s2)))
              \<longleftrightarrow> t < exp_now (clk j) + 120000000)"
proof -
  from process_webhook_data_events [OF assms(1,2)] obtain j where
    j: "j < length (live_requests s0)" "e = conversation_event (clk j) (live_requests s0 ! j)"
    by blast
  let ?x = "exp_now (clk j) + 120000000"
  have x: "expires_at e = Some ?x"
    using j(2) by (simp add: conversation_event_def ttl_def)
  have s2: "live_messages s2 = filter (is_live a) (live_messages s1 @ new)"
    using live_add_live_messages [of inexact a act_iso new s1] assms(3) by simp
  have "e \<in> set (fst (get_live_messages t (run inexact ops s2))) \<longleftrightarrow> t < ?x"
  proof
    assume "e \<in> set (fst (get_live_messages t (run inexact ops s2)))"
    then show "t < ?x"
      using is_live_expires [OF x] by (simp add: live_get_live_messages)
  next
    assume t: "t < ?x"
    have le: "a \<le> t" "\<forall>u \<in> set (concat (map op_times ops)). u \<le> t"
      using assms(4) by (auto simp: sorted_append)
    have "e \<in> set (live_messages s2)"
      using s2 assms(2) le(1) t is_live_expires [OF x] by simp
    moreover have "\<forall>u \<in> set (concat (map op_times ops)). u < ?x"
      using le(2) t by fastforce
    ultimately have "e \<in> set (live_messages (run inexact ops s2))"
      unfolding run_def using run_keeps [OF x] by blast
    then show "e \<in> set (fst (get_live_messages t (run inexact ops s2)))"
      using t is_live_expires [OF x] by (simp add: live_get_live_messages)
  qed
  with j x show ?thesis by blast
qed

theorem ttl_correctness_witness:
  "process_webhook_data frozen_clock (queued [hi_hello])
     = ([conversation_event (frozen_clock 0) hi_hello],
        snd (process_webhook_data frozen_clock (queued [hi_hello])))
   \<and> sorted (5 # concat (map op_times [GetLiveMessages 10]) @ [119999999])
   \<and> conversation_event (frozen_clock 0) hi_hello
        \<in> set (fst (get_live_messages 119999999 (run overflows [GetLiveMessages 10]
             (snd (add_live_messages overflows 5 ''t'' [conversation_event (frozen_clock 0) hi_hello]
                (snd (process_webhook_data frozen_clock (queued [hi_hello]))))))))
   \<and> conversation_event (frozen_clock 0) hi_hello
        \<notin> set (fst (get_live_messages 120000000 (run overflows [GetLiveMessages 10]
             (snd (add_live_messages overflows 5 ''t'' [conversation_event (frozen_clock 0) hi_hello]
                (snd (process_webhook_data frozen_clock (queued [hi_hello]))))))))"
proof -
  let ?e = "conversation_event (frozen_clock 0) hi_hello"
  let ?s1 = "snd (process_webhook_data frozen_clock (queued [hi_hello]))"
  let ?r = "fst (add_live_messages overflows 5 ''t'' [?e] ?s1)"
  let ?s2 = "snd (add_live_messages overflows 5 ''t'' [?e] ?s1)"
  have p: "process_webhook_data frozen_clock (queued [hi_hello]) = ([?e], ?s1)"
    by (simp add: process_webhook_data_def queued_def init_manager_def hi_hello_def
          request_id_def dget_def)
  have e: "?e \<in> set [?e]" by simp
  have a: "add_live_messages overflows 5 ''t'' [?e] ?s1 = (?r, ?s2)" by simp
  have x: "exp_now (frozen_clock 0) = 0" by (simp add: frozen_clock_def)
  have s: "sorted (5 # concat (map op_times [GetLiveMessages 10]) @ [119999999::int])"
          "sorted (5 # concat (map op_times [GetLiveMessages 10]) @ [120000000::int])"
    by simp_all
  from ttl_correctness [OF p e a s(1)] have i: "?e \<in> set (fst (get_live_messages 119999999
      (run overflows [GetLiveMessages 10] ?s2)))"
    using x by (auto simp: queued_def)
  from ttl_correctness [OF p e a s(2)] have o: "?e \<notin> set (fst (get_live_messages 120000000
      (run overflows [GetLiveMessages 10] ?s2)))"
    using x by (auto simp: queued_def)
  show ?thesis using p s(1) i o by blast
qed

section \<open>The average response time after a batch\<close>














text \<open>
  Forty latencies, 1 thirty-nine times and 68, have the mean 2.675, which is not a
  double: the double nearest to it is below it, its 2-decimal rounding is 2.67 and
  not 2.68, and the average is the double nearest to 2.67.
\<close>

lemma rounded_mean_2675:
  "sum_list (replicate 39 1 @ [68 :: rat]) / of_nat (length (replicate 39 (1 :: rat) @ [68]))
     = 2675 / 1000
   \<and> rounded_mean inexact (replicate 39 1 @ [68])
     = Inr (Finite (1503076375634903 / 562949953421312))
   \<and> (267 / 100 :: rat) - 1 / 10 ^ 15 < 1503076375634903 / 562949953421312
   \<and> (1503076375634903 / 562949953421312 :: rat) < 267 / 100 + 1 / 10 ^ 15"
proof -
  have e: "exact_sum (replicate 39 1 @ [68])"
    by code_simp
  have m: "sum_list (replicate 39 1 @ [68 :: rat])
             / of_nat (length (replicate 39 (1 :: rat) @ [68])) = 2675 / 1000"
    by code_simp
  have d: "nearest_double (nearest_hundredth (nearest_double (2675 / 1000)))
             = 1503076375634903 / 562949953421312"
    by code_simp
  show ?thesis
    unfolding rounded_mean_def using e m d by simp
qed




section \<open>Defaults of the event built from a request\<close>

lemma conversation_event_defaults:
  "(\<not> has_key ''id'' p \<longrightarrow>
      event_id (conversation_event c p) = JStr (''live_'' @ str_int (id_ms c)))
   \<and> (\<not> has_key ''user_message'' p \<longrightarrow> user_message (conversation_event c p) = JStr [])
   \<and> (\<not> has_key ''ai_response'' p \<longrightarrow> ai_response (conversation_event c p) = JStr [])
   \<and> (\<not> has_key ''latency_ms'' p \<longrightarrow>
        latency_ms (metadata (conversation_event c p)) = JNum 0)
   \<and> (\<not> has_key ''status'' p \<longrightarrow>
        status (metadata (conversation_event c p)) = JStr ''success'')"
  by (simp add: conversation_event_def request_id_def dget_def has_key_def)

lemma hi_hello_one_event:
  "map (\<lambda>e. (event_id e, user_message e, ai_response e, status (metadata e)))
     (fst (process_webhook_data frozen_clock (queued [hi_hello])))
   = [(JStr (''live_'' @ str_int 1700000000000), JStr ''hi'', JStr ''hello'', JStr ''success'')]"
  by (simp add: process_webhook_data_def queued_def init_manager_def hi_hello_def
        request_id_def conversation_event_def dget_def frozen_clock_def)

text \<open>
  C5 at a request whose id is a list, \<^verbatim>\<open>{"id": [1], "user_message": "hi",
  "ai_response": "hello"}\<close>: the membership test of line 128 raises, the method
  returns no event and the queue keeps the request, so the next call fails in the
  same way. A request with no id queued before it has its generated id recorded in
  \<^verbatim>\<open>processed_request_ids\<close> while its event is never returned.
\<close>

theorem unhashable_id_stalls_queue:
  "process_webhook_data frozen_clock (queued [with_id (JArr [JNum 1])])
     = ([], queued [with_id (JArr [JNum 1])])
   \<and> process_webhook_data frozen_clock (queued [hi_hello, with_id (JArr [JNum 1])])
     = ([], (queued [hi_hello, with_id (JArr [JNum 1])])
              \<lparr>processed_request_ids := {KStr (''live_'' @ str_int 1700000000000)}\<rparr>)
   \<and> process_webhook_data frozen_clock
        ((queued [hi_hello, with_id (JArr [JNum 1])])
           \<lparr>processed_request_ids := {KStr (''live_'' @ str_int 1700000000000)}\<rparr>)
     = ([], (queued [hi_hello, with_id (JArr [JNum 1])])
              \<lparr>processed_request_ids := {KStr (''live_'' @ str_int 1700000000000)}\<rparr>)"
  by (simp add: process_webhook_data_def queued_def init_manager_def hi_hello_def
        with_id_def request_id_def dget_def frozen_clock_def)

section \<open>Extraction of the reply\<close>

lemma choices_branch_content:
  assumes "map_of d ''choices'' = Some (JArr (JObj choice # others))"
      and "map_of choice ''message'' = Some (JObj msg)"
      and "map_of msg ''content'' = Some v"
  shows "choices_branch d = Inr (Some v)"
  using assms by (simp add: choices_branch_def try_bind_def has_key_def dget_def)

lemma choices_branch_text:
  assumes "map_of d ''choices'' = Some (JArr (JObj choice # others))"
      and "map_of choice ''message'' = None
           \<or> map_of choice ''message'' = Some (JObj msg) \<and> map_of msg ''content'' = None"
      and "map_of choice ''text'' = Some v"
  shows "choices_branch d = Inr (Some v)"
  using assms by (auto simp: choices_branch_def try_bind_def has_key_def dget_def)

lemma choices_branch_nothing:
  assumes "\<not> has_key ''choices'' d
           \<or> map_of d ''choices'' = Some (JArr [])
           \<or> map_of d ''choices'' = Some (JStr [])
           \<or> map_of d ''choices'' = Some (JObj [])
           \<or> map_of d ''choices'' = Some (JArr (JObj choice # others))
              \<and> (map_of choice ''message'' = None
                  \<or> map_of choice ''message'' = Some (JObj msg)
                     \<and> map_of msg ''content'' = None)
              \<and> map_of choice ''text'' = None"
  shows "choices_branch d = Inr None"
  using assms by (auto simp: choices_branch_def try_bind_def has_key_def dget_def)

lemma extract_found:
  assumes "choices_branch d = Inr (Some v)"
  shows "extract_ai_response str_of (JObj d) = v"
  using assms by (simp add: extract_ai_response_def extract_body_def try_bind_def)

lemma extract_content:
  assumes "choices_branch d = Inr None" and "map_of d ''content'' = Some v"
  shows "extract_ai_response str_of (JObj d) = v"
  using assms
  by (simp add: extract_ai_response_def extract_body_def try_bind_def has_key_def dget_def)

lemma extract_message:
  assumes "choices_branch d = Inr None" and "\<not> has_key ''content'' d"
      and "map_of d ''message'' = Some v"
  shows "extract_ai_response str_of (JObj d) = JStr (str_of v)"
  using assms
  by (simp add: extract_ai_response_def extract_body_def try_bind_def has_key_def dget_def)

lemma extract_no_key:
  assumes "choices_branch d = Inr None" and "\<not> has_key ''content'' d"
      and "\<not> has_key ''message'' d"
  shows "extract_ai_response str_of (JObj d) = JStr (str_of (JObj d))"
  using assms by (simp add: extract_ai_response_def extract_body_def try_bind_def)

lemma extract_other:
  "extract_ai_response str_of (JStr z) = JStr z"
  "extract_ai_response str_of JNull = JStr (str_of JNull)"
  "extract_ai_response str_of (JBool b) = JStr (str_of (JBool b))"
  "extract_ai_response str_of (JNum r) = JStr (str_of (JNum r))"
  "extract_ai_response str_of (JArr xs) = JStr (str_of (JArr xs))"
  by (simp_all add: extract_ai_response_def extract_body_def)

lemma extract_raises:
  assumes "map_of d ''choices'' = Some (JArr (JNum n # others))"
  shows "extract_ai_response str_of (JObj d) = JStr ''Response parsing error''"
  using assms
  by (simp add: extract_ai_response_def extract_body_def choices_branch_def try_bind_def
        has_key_def dget_def)

text \<open>
  C6, as the code has it. On a dict \<^verbatim>\<open>extract_ai_response\<close> tries the shapes in a fixed
  order, the first match winning. First, when the first entry of \<^verbatim>\<open>choices\<close> is a dict:
  the \<^verbatim>\<open>content\<close> of its \<^verbatim>\<open>message\<close>; failing that (no \<^verbatim>\<open>message\<close>, or a \<^verbatim>\<open>message\<close> dict
  without \<^verbatim>\<open>content\<close>), its \<^verbatim>\<open>text\<close>. When there is no \<^verbatim>\<open>choices\<close> key, when \<^verbatim>\<open>choices\<close> is
  empty, or when its first entry has neither, the method goes on: the \<^verbatim>\<open>content\<close> key
  of the dict, then its \<^verbatim>\<open>message\<close> key (stringified), and the stringified dict when
  it has neither. A string comes back as it is; a value that is neither a dict nor a
  string is stringified; a dict whose first choice is a number makes a lookup raise
  and gives the text of the \<^verbatim>\<open>except\<close> clause. So the three payloads of the claim give
  X, Y and Z. \<^verbatim>\<open>process_webhook_data\<close> does not call the method: the event carries the
  request's \<^verbatim>\<open>ai_response\<close> entry unchanged, or the empty string.
\<close>

theorem response_extraction_order:
  "extract_ai_response str_of
     (JObj [(''choices'', JArr [JObj [(''message'', JObj [(''content'', JStr x)])]])]) = JStr x
   \<and> extract_ai_response str_of (JObj [(''content'', JStr y)]) = JStr y
   \<and> extract_ai_response str_of (JStr z) = JStr z
   \<and> (map_of d ''choices'' = Some (JArr (JObj choice # others))
        \<and> map_of choice ''message'' = Some (JObj msg) \<and> map_of msg ''content'' = Some v
        \<longrightarrow> extract_ai_response str_of (JObj d) = v)
   \<and> (map_of d ''choices'' = Some (JArr (JObj choice # others))
        \<and> (map_of choice ''message'' = None
            \<or> map_of choice ''message'' = Some (JObj msg) \<and> map_of msg ''content'' = None)
        \<and> map_of choice ''text'' = Some v
        \<longrightarrow> extract_ai_response str_of (JObj d) = v)
   \<and> (\<not> has_key ''choices'' d
        \<or> map_of d ''choices'' = Some (JArr [])
        \<or> map_of d ''choices'' = Some (JStr [])
        \<or> map_of d ''choices'' = Some (JObj [])
        \<or> map_of d ''choices'' = Some (JArr (JObj choice # others))
           \<and> (map_of choice ''message'' = None
               \<or> map_of choice ''message'' = Some (JObj msg) \<and> map_of msg ''content'' = None)
           \<and> map_of choice ''text'' = None
        \<longrightarrow> (map_of d ''content'' = Some v \<longrightarrow> extract_ai_response str_of (JObj d) = v)
            \<and> (\<not> has_key ''content'' d \<and> map_of d ''message'' = Some v
                 \<longrightarrow> extract_ai_response str_of (JObj d) = JStr (str_of v))
            \<and> (\<not> has_key ''content'' d \<and> \<not> has_key ''message'' d
                 \<longrightarrow> extract_ai_response str_of (JObj d) = JStr (str_of (JObj d))))
   \<and> extract_ai_response str_of JNull = JStr (str_of JNull)
   \<and> extract_ai_response str_of (JBool b) = JStr (str_of (JBool b))
   \<and> extract_ai_response str_of (JNum r) = JStr (str_of (JNum r))
   \<and> extract_ai_response str_of (JArr xs) = JStr (str_of (JArr xs))
   \<and> (map_of d ''choices'' = Some (JArr (JNum n # others))
        \<longrightarrow> extract_ai_response str_of (JObj d) = JStr ''Response parsing error'')
   \<and> ai_response (conversation_event c p) = dget p ''ai_response'' (JStr [])"
proof -
  have 1: "extract_ai_response str_of
     (JObj [(''choices'', JArr [JObj [(''message'', JObj [(''content'', JStr x)])]])]) = JStr x"
    by (rule extract_found, rule choices_branch_content
          [of _ "[(''message'', JObj [(''content'', JStr x)])]" "[]" "[(''content'', JStr x)]"])
       simp_all
  have 2: "extract_ai_response str_of (JObj [(''content'', JStr y)]) = JStr y"
    by (rule extract_content, rule choices_branch_nothing) (simp_all add: has_key_def)
  have 3: "ai_response (conversation_event c p) = dget p ''ai_response'' (JStr [])"
    by (simp add: conversation_event_def)
  have 4: "extract_ai_response str_of (JObj d) = v"
    if "map_of d ''choices'' = Some (JArr (JObj choice # others))
        \<and> map_of choice ''message'' = Some (JObj msg) \<and> map_of msg ''content'' = Some v"
    using that extract_found [OF choices_branch_content [of d choice others msg v]] by blast
  have 5: "extract_ai_response str_of (JObj d) = v"
    if "map_of d ''choices'' = Some (JArr (JObj choice # others))
        \<and> (map_of choice ''message'' = None
            \<or> map_of choice ''message'' = Some (JObj msg) \<and> map_of msg ''content'' = None)
        \<and> map_of choice ''text'' = Some v"
    using that extract_found [OF choices_branch_text [of d choice others msg v]] by blast
  have 6: "(map_of d ''content'' = Some v \<longrightarrow> extract_ai_response str_of (JObj d) = v)
            \<and> (\<not> has_key ''content'' d \<and> map_of d ''message'' = Some v
                 \<longrightarrow> extract_ai_response str_of (JObj d) = JStr (str_of v))
            \<and> (\<not> has_key ''content'' d \<and> \<not> has_key ''message'' d
                 \<longrightarrow> extract_ai_response str_of (JObj d) = JStr (str_of (JObj d)))"
    if "\<not> has_key ''choices'' d
        \<or> map_of d ''choices'' = Some (JArr [])
        \<or> map_of d ''choices'' = Some (JStr [])
        \<or> map_of d ''choices'' = Some (JObj [])
        \<or> map_of d ''choices'' = Some (JArr (JObj choice # others))
           \<and> (map_of choice ''message'' = None
               \<or> map_of choice ''message'' = Some (JObj msg) \<and> map_of msg ''content'' = None)
           \<and> map_of choice ''text'' = None"
  proof -
    have n: "choices_branch d = Inr None"
      by (rule choices_branch_nothing [OF that])
    show ?thesis
      using extract_content [OF n, of v str_of] extract_message [OF n, of v str_of]
        extract_no_key [OF n, of str_of]
      by blast
  qed
  have 7: "extract_ai_response str_of (JObj d) = JStr ''Response parsing error''"
    if "map_of d ''choices'' = Some (JArr (JNum n # others))"
    using that by (rule extract_raises)
  show ?thesis
    using 1 2 3 4 5 6 7 extract_other [of str_of] by blast
qed

theorem response_extraction_order_witness:
  "extract_ai_response opaque_str
     (JObj [(''content'', JStr ''Y''),
            (''choices'', JArr [JObj [(''text'', JStr ''T''),
                                      (''message'', JObj [(''content'', JStr ''X'')])]])])
     = JStr ''X''
   \<and> extract_ai_response opaque_str
        (JObj [(''choices'', JArr [JObj [(''text'', JStr ''T'')]]), (''content'', JStr ''C'')])
     = JStr ''T''
   \<and> extract_ai_response opaque_str
        (JObj [(''choices'', JArr [JObj [(''message'', JObj []), (''text'', JStr ''T'')]]),
               (''content'', JStr ''C'')])
     = JStr ''T''
   \<and> extract_ai_response opaque_str
        (JObj [(''choices'', JArr []), (''content'', JStr ''C'')]) = JStr ''C''
   \<and> extract_ai_response opaque_str
        (JObj [(''choices'', JArr [JObj [(''other'', JStr ''O'')]]), (''content'', JStr ''C'')])
     = JStr ''C''
   \<and> extract_ai_response opaque_str
        (JObj [(''message'', JStr ''M''), (''content'', JStr ''Y'')]) = JStr ''Y''
   \<and> extract_ai_response opaque_str (JObj [(''message'', JStr ''M'')])
        = JStr (opaque_str (JStr ''M''))
   \<and> extract_ai_response opaque_str (JObj [(''other'', JStr ''O'')])
        = JStr (opaque_str (JObj [(''other'', JStr ''O'')]))
   \<and> extract_ai_response opaque_str (JObj [(''choices'', JArr [JNum 5, JNum 6])])
        = JStr ''Response parsing error''"
proof -
  have 1: "extract_ai_response opaque_str
     (JObj [(''content'', JStr ''Y''),
            (''choices'', JArr [JObj [(''text'', JStr ''T''),
                                      (''message'', JObj [(''content'', JStr ''X'')])]])])
     = JStr ''X''"
    using response_extraction_order
      [where str_of = opaque_str
         and d = "[(''content'', JStr ''Y''),
                   (''choices'', JArr [JObj [(''text'', JStr ''T''),
                                             (''message'', JObj [(''content'', JStr ''X'')])]])]"
         and choice = "[(''text'', JStr ''T''), (''message'', JObj [(''content'', JStr ''X'')])]"
         and others = "[]" and msg = "[(''content'', JStr ''X'')]" and v = "JStr ''X''"]
    by simp
  have 2: "extract_ai_response opaque_str
        (JObj [(''choices'', JArr [JObj [(''text'', JStr ''T'')]]), (''content'', JStr ''C'')])
     = JStr ''T''"
    using response_extraction_order
      [where str_of = opaque_str
         and d = "[(''choices'', JArr [JObj [(''text'', JStr ''T'')]]), (''content'', JStr ''C'')]"
         and choice = "[(''text'', JStr ''T'')]"
         and others = "[]" and v = "JStr ''T''"]
    by simp
  have 3: "extract_ai_response opaque_str
        (JObj [(''choices'', JArr [JObj [(''message'', JObj []), (''text'', JStr ''T'')]]),
               (''content'', JStr ''C'')])
     = JStr ''T''"
    using response_extraction_order
      [where str_of = opaque_str
         and d = "[(''choices'', JArr [JObj [(''message'', JObj []), (''text'', JStr ''T'')]]),
                   (''content'', JStr ''C'')]"
         and choice = "[(''message'', JObj []), (''text'', JStr ''T'')]"
         and others = "[]" and msg = "[]" and v = "JStr ''T''"]
    by simp
  have 4: "extract_ai_response opaque_str
        (JObj [(''choices'', JArr []), (''content'', JStr ''C'')]) = JStr ''C''"
    using response_extraction_order
      [where str_of = opaque_str
         and d = "[(''choices'', JArr []), (''content'', JStr ''C'')]" and v = "JStr ''C''"]
    by simp
  have 5: "extract_ai_response opaque_str
        (JObj [(''choices'', JArr [JObj [(''other'', JStr ''O'')]]), (''content'', JStr ''C'')])
     = JStr ''C''"
    using response_extraction_order
      [where str_of = opaque_str
         and d = "[(''choices'', JArr [JObj [(''other'', JStr ''O'')]]),
                   (''content'', JStr ''C'')]"
         and choice = "[(''other'', JStr ''O'')]" and others = "[]" and v = "JStr ''C''"]
    by simp
  have 6: "extract_ai_response opaque_str
        (JObj [(''message'', JStr ''M''), (''content'', JStr ''Y'')]) = JStr ''Y''"
    using response_extraction_order
      [where str_of = opaque_str
         and d = "[(''message'', JStr ''M''), (''content'', JStr ''Y'')]" and v = "JStr ''Y''"]
    by (simp add: has_key_def)
  have 7: "extract_ai_response opaque_str (JObj [(''message'', JStr ''M'')])
        = JStr (opaque_str (JStr ''M''))"
    using response_extraction_order
      [where str_of = opaque_str and d = "[(''message'', JStr ''M'')]" and v = "JStr ''M''"]
    by (simp add: has_key_def)
  have 8: "extract_ai_response opaque_str (JObj [(''other'', JStr ''O'')])
        = JStr (opaque_str (JObj [(''other'', JStr ''O'')]))"
    using response_extraction_order
      [where str_of = opaque_str and d = "[(''other'', JStr ''O'')]"]
    by (simp add: has_key_def)
  have 9: "extract_ai_response opaque_str (JObj [(''choices'', JArr [JNum 5, JNum 6])])
        = JStr ''Response parsing error''"
    using response_extraction_order
      [where str_of = opaque_str and d = "[(''choices'', JArr [JNum 5, JNum 6])]"
         and n = 5 and others = "[JNum 6]"]
    by simp
  show ?thesis
    using 1 2 3 4 5 6 7 8 9 by blast
qed

text \<open>
  C6 as stated fails twice. Normalizing the request
  \<^verbatim>\<open>{"choices":[{"message":{"content":"X"}}]}\<close> gives an event whose \<^verbatim>\<open>ai_response\<close> is the
  empty string, not X. And the unrecognized payload \<^verbatim>\<open>{"choices":[5]}\<close> is not
  stringified: the test \<^verbatim>\<open>'message' in 5\<close> raises and the method returns the text of its
  \<^verbatim>\<open>except\<close> clause.
\<close>

theorem normalization_skips_extraction_counterexample:
  "map ai_response (fst (process_webhook_data frozen_clock
      (queued [[(''choices'', JArr [JObj [(''message'', JObj [(''content'', JStr ''X'')])]])]])))
     = [JStr []]
   \<and> JStr [] \<noteq> JStr ''X''
   \<and> extract_ai_response opaque_str (JObj [(''choices'', JArr [JNum 5])])
       = JStr ''Response parsing error''
   \<and> JStr ''Response parsing error''
       \<noteq> JStr (opaque_str (JObj [(''choices'', JArr [JNum 5])]))"
  by (simp add: process_webhook_data_def queued_def init_manager_def request_id_def
        conversation_event_def dget_def extract_ai_response_def extract_body_def
        choices_branch_def try_bind_def has_key_def opaque_str_def)

section \<open>Generated ids within one batch\<close>

lemma digit_inj: "d < 10 \<Longrightarrow> d' < 10 \<Longrightarrow> digit d = digit d' \<Longrightarrow> d = d'"
proof -
  assume a: "d < 10" "d' < 10" "digit d = digit d'"
  have "distinct ''0123456789''" by simp
  moreover have "d < length ''0123456789''" "d' < length ''0123456789''"
    using a by simp_all
  ultimately show "d = d'"
    using a(3) unfolding digit_def by (simp only: nth_eq_iff_index_eq)
qed

lemma dec_nat_nonempty: "dec_nat n \<noteq> []"
  by (subst dec_nat.simps) simp

lemma dec_nat_inj: "dec_nat n = dec_nat m \<Longrightarrow> n = m"
proof (induction n arbitrary: m rule: dec_nat.induct)
  case (1 n)
  show ?case
  proof (cases "n < 10")
    case True
    then have n: "dec_nat n = [digit n]" by (subst dec_nat.simps) simp
    show ?thesis
    proof (cases "m < 10")
      case True
      then have "dec_nat m = [digit m]" by (subst dec_nat.simps) simp
      with n "1.prems" have "digit n = digit m" by simp
      with \<open>n < 10\<close> True show ?thesis by (rule digit_inj)
    next
      case False
      then have "dec_nat m = dec_nat (m div 10) @ [digit (m mod 10)]"
        by (subst dec_nat.simps) simp
      with n "1.prems" have "dec_nat (m div 10) = []" by simp
      with dec_nat_nonempty show ?thesis by blast
    qed
  next
    case False
    then have n: "dec_nat n = dec_nat (n div 10) @ [digit (n mod 10)]"
      by (subst dec_nat.simps) simp
    show ?thesis
    proof (cases "m < 10")
      case True
      then have "dec_nat m = [digit m]" by (subst dec_nat.simps) simp
      with n "1.prems" have "dec_nat (n div 10) = []" by simp
      with dec_nat_nonempty show ?thesis by blast
    next
      case m: False
      then have "dec_nat m = dec_nat (m div 10) @ [digit (m mod 10)]"
        by (subst dec_nat.simps) simp
      with n "1.prems" have e: "dec_nat (n div 10) = dec_nat (m div 10)"
        "digit (n mod 10) = digit (m mod 10)" by simp_all
      from "1.IH" [OF False e(1)] have q: "n div 10 = m div 10" .
      have "n mod 10 = m mod 10"
        using digit_inj [OF _ _ e(2)] by simp
      with q show ?thesis by (metis div_mult_mod_eq)
    qed
  qed
qed

lemma dec_nat_digits: "set (dec_nat n) \<subseteq> set ''0123456789''"
proof (induction n rule: dec_nat.induct)
  case (1 n)
  have d: "\<And>k. k < 10 \<Longrightarrow> digit k \<in> set ''0123456789''"
    unfolding digit_def by (rule nth_mem) simp
  show ?case
  proof (cases "n < 10")
    case True
    then have "dec_nat n = [digit n]" by (subst dec_nat.simps) simp
    with d [OF True] show ?thesis by simp
  next
    case False
    then have "dec_nat n = dec_nat (n div 10) @ [digit (n mod 10)]"
      by (subst dec_nat.simps) simp
    moreover have "digit (n mod 10) \<in> set ''0123456789''" by (rule d) simp
    ultimately show ?thesis using "1.IH" [OF False] by simp
  qed
qed

lemma dec_nat_no_minus: "CHR ''-'' # s \<noteq> dec_nat n"
proof
  assume "CHR ''-'' # s = dec_nat n"
  then have "CHR ''-'' \<in> set (dec_nat n)" by (metis list.set_intros(1))
  with dec_nat_digits [of n] show False by auto
qed

lemma str_int_inj: "str_int i = str_int j \<Longrightarrow> i = j"
proof -
  assume a: "str_int i = str_int j"
  show "i = j"
  proof (cases "i < 0")
    case True
    show ?thesis
    proof (cases "j < 0")
      case j: True
      with True a have "dec_nat (nat (- i)) = dec_nat (nat (- j))" by (simp add: str_int_def)
      then have "nat (- i) = nat (- j)" by (rule dec_nat_inj)
      with True j show ?thesis by simp
    next
      case False
      with True a dec_nat_no_minus show ?thesis by (simp add: str_int_def)
    qed
  next
    case False
    show ?thesis
    proof (cases "j < 0")
      case True
      with False a dec_nat_no_minus [of "dec_nat (nat (- j))" "nat i"] show ?thesis
        by (simp add: str_int_def)
    next
      case j: False
      with False a have "dec_nat (nat i) = dec_nat (nat j)" by (simp add: str_int_def)
      then have "nat i = nat j" by (rule dec_nat_inj)
      with False j show ?thesis by simp
    qed
  qed
qed

lemma upt_0_Suc_map: "map f [0..<Suc n] = f 0 # map (\<lambda>j. f (Suc j)) [0..<n]"
proof -
  have "[0..<Suc n] = 0 # map Suc [0..<n]"
    by (simp only: map_Suc_upt upt_conv_Cons [of 0 "Suc n"] zero_less_Suc)
  then show ?thesis by (simp add: comp_def)
qed

lemma process_loop_generated:
  assumes "\<forall>p \<in> set reqs. \<not> has_key ''id'' p"
      and "inj_on (\<lambda>j. id_ms (clk j)) {i..<i + length reqs}"
      and "\<forall>j \<in> {i..<i + length reqs}. KStr (''live_'' @ str_int (id_ms (clk j))) \<notin> ids"
  shows "fst (process_loop clk i reqs acc ids)
           = Inr (acc @ map (\<lambda>j. conversation_event (clk (i + j)) (reqs ! j)) [0..<length reqs])"
  using assms
proof (induction reqs arbitrary: i acc ids)
  case Nil
  show ?case by simp
next
  case (Cons p ps)
  let ?k = "KStr (''live_'' @ str_int (id_ms (clk i)))"
  have noid: "\<not> has_key ''id'' p" using Cons.prems(1) by simp
  then have rid: "request_id (clk i) p = JStr (''live_'' @ str_int (id_ms (clk i)))"
    by (simp add: request_id_def dget_def has_key_def)
  have fresh: "?k \<notin> ids" using Cons.prems(3) by simp
  have step: "process_loop clk i (p # ps) acc ids
                = process_loop clk (Suc i) ps (acc @ [conversation_event (clk i) p]) (insert ?k ids)"
    using rid fresh by simp
  have 1: "\<forall>q \<in> set ps. \<not> has_key ''id'' q" using Cons.prems(1) by simp
  have sub: "{Suc i..<Suc i + length ps} \<subseteq> {i..<i + length (p # ps)}" by auto
  have 2: "inj_on (\<lambda>j. id_ms (clk j)) {Suc i..<Suc i + length ps}"
    using Cons.prems(2) sub by (rule inj_on_subset)
  have 3: "\<forall>j \<in> {Suc i..<Suc i + length ps}.
             KStr (''live_'' @ str_int (id_ms (clk j))) \<notin> insert ?k ids"
  proof
    fix j assume j: "j \<in> {Suc i..<Suc i + length ps}"
    then have jin: "j \<in> {i..<i + length (p # ps)}" using sub by blast
    have iin: "i \<in> {i..<i + length (p # ps)}" by simp
    have "j \<noteq> i" using j by simp
    then have "id_ms (clk j) \<noteq> id_ms (clk i)"
      using Cons.prems(2) jin iin by (auto simp: inj_on_def)
    then have "str_int (id_ms (clk j)) \<noteq> str_int (id_ms (clk i))"
      using str_int_inj by blast
    moreover have "KStr (''live_'' @ str_int (id_ms (clk j))) \<notin> ids"
      using Cons.prems(3) jin by blast
    ultimately show "KStr (''live_'' @ str_int (id_ms (clk j))) \<notin> insert ?k ids" by simp
  qed
  have "fst (process_loop clk i (p # ps) acc ids)
          = Inr ((acc @ [conversation_event (clk i) p])
                 @ map (\<lambda>j. conversation_event (clk (Suc i + j)) (ps ! j)) [0..<length ps])"
    unfolding step by (rule Cons.IH [OF 1 2 3])
  also have "(acc @ [conversation_event (clk i) p])
                 @ map (\<lambda>j. conversation_event (clk (Suc i + j)) (ps ! j)) [0..<length ps]
        = acc @ map (\<lambda>j. conversation_event (clk (i + j)) ((p # ps) ! j)) [0..<length (p # ps)]"
    by (simp add: upt_0_Suc_map del: upt_Suc)
  finally show ?case .
qed

lemma event_id_generated:
  "\<not> has_key ''id'' p
    \<Longrightarrow> event_id (conversation_event c p) = JStr (''live_'' @ str_int (id_ms c))"
  by (simp add: conversation_event_def request_id_def dget_def has_key_def)

text \<open>
  C9, as the code has it. The generated id is \<^verbatim>\<open>live_\<close> followed by the millisecond
  reading of the clock at the request's turn in the loop. When the requests of a
  drained batch lack an id, their readings are pairwise different and none of the
  generated ids has been processed before, every request gets its own id and none is
  dropped.
\<close>

theorem generated_ids_distinct:
  assumes "\<forall>p \<in> set (live_requests s). \<not> has_key ''id'' p"
      and "inj_on (\<lambda>j. id_ms (clk j)) {0..<length (live_requests s)}"
      and "\<forall>j \<in> {0..<length (live_requests s)}.
             KStr (''live_'' @ str_int (id_ms (clk j))) \<notin> processed_request_ids s"
  shows "map event_id (fst (process_webhook_data clk s))
           = map (\<lambda>j. JStr (''live_'' @ str_int (id_ms (clk j)))) [0..<length (live_requests s)]
       \<and> distinct (map event_id (fst (process_webhook_data clk s)))
       \<and> length (fst (process_webhook_data clk s)) = length (live_requests s)"
proof -
  let ?n = "length (live_requests s)"
  let ?new = "map (\<lambda>j. conversation_event (clk j) (live_requests s ! j)) [0..<?n]"
  have l: "fst (process_loop clk 0 (live_requests s) [] (processed_request_ids s)) = Inr ?new"
    using process_loop_generated [of "live_requests s" clk 0 "processed_request_ids s" "[]"] assms
    by simp
  have new: "fst (process_webhook_data clk s) = ?new"
  proof (cases "live_requests s = []")
    case True
    then show ?thesis by (simp add: process_webhook_data_def)
  next
    case False
    obtain r ids' where q: "process_loop clk 0 (live_requests s) [] (processed_request_ids s) = (r, ids')"
      by (cases "process_loop clk 0 (live_requests s) [] (processed_request_ids s)")
    with l have "r = Inr ?new" by simp
    with q False show ?thesis by (simp add: process_webhook_data_def)
  qed
  have ids: "map event_id ?new
               = map (\<lambda>j. JStr (''live_'' @ str_int (id_ms (clk j)))) [0..<?n]"
    using assms(1) by (simp add: event_id_generated)
  have "inj_on (\<lambda>j. JStr (''live_'' @ str_int (id_ms (clk j)))) {0..<?n}"
  proof (rule inj_onI)
    fix a b assume ab: "a \<in> {0..<?n}" "b \<in> {0..<?n}"
      "JStr (''live_'' @ str_int (id_ms (clk a))) = JStr (''live_'' @ str_int (id_ms (clk b)))"
    then have "id_ms (clk a) = id_ms (clk b)" using str_int_inj by simp
    with assms(2) ab(1,2) show "a = b" by (auto simp: inj_on_def)
  qed
  then have d: "distinct (map (\<lambda>j. JStr (''live_'' @ str_int (id_ms (clk j)))) [0..<?n])"
    by (simp add: distinct_map)
  have n: "length ?new = ?n" by simp
  show ?thesis unfolding new ids using d n by blast
qed

theorem generated_ids_distinct_witness:
  "\<not> has_key ''id'' hi_hello \<and> \<not> has_key ''id'' how_fine
   \<and> id_ms (stepping_clock 0) \<noteq> id_ms (stepping_clock 1)
   \<and> distinct (map event_id (fst (process_webhook_data stepping_clock (queued [hi_hello, how_fine]))))
   \<and> length (fst (process_webhook_data stepping_clock (queued [hi_hello, how_fine]))) = 2"
proof -
  have 1: "\<forall>p \<in> set (live_requests (queued [hi_hello, how_fine])). \<not> has_key ''id'' p"
    by (simp add: queued_def hi_hello_def how_fine_def has_key_def)
  have 2: "inj_on (\<lambda>j. id_ms (stepping_clock j))
             {0..<length (live_requests (queued [hi_hello, how_fine]))}"
    by (simp add: inj_on_def stepping_clock_def)
  have 3: "\<forall>j \<in> {0..<length (live_requests (queued [hi_hello, how_fine]))}.
             KStr (''live_'' @ str_int (id_ms (stepping_clock j)))
               \<notin> processed_request_ids (queued [hi_hello, how_fine])"
    by (simp add: queued_def init_manager_def)
  have 4: "\<not> has_key ''id'' hi_hello \<and> \<not> has_key ''id'' how_fine"
    by (simp add: hi_hello_def how_fine_def has_key_def)
  have 5: "id_ms (stepping_clock 0) \<noteq> id_ms (stepping_clock 1)"
    by (simp add: stepping_clock_def)
  from generated_ids_distinct [OF 1 2 3]
  have d: "distinct (map event_id
             (fst (process_webhook_data stepping_clock (queued [hi_hello, how_fine]))))"
    and l: "length (fst (process_webhook_data stepping_clock (queued [hi_hello, how_fine])))
              = length (live_requests (queued [hi_hello, how_fine]))"
    by blast+
  have "length (live_requests (queued [hi_hello, how_fine])) = 2"
    by (simp add: queued_def)
  with 4 5 d l show ?thesis by simp
qed

text \<open>
  C9 as stated fails: two requests without an id, drained in one batch and
  reached within the same millisecond, get the same generated id, and the second is
  dropped by the membership test.
\<close>

theorem same_millisecond_counterexample:
  "\<not> has_key ''id'' hi_hello \<and> \<not> has_key ''id'' how_fine
   \<and> id_ms (frozen_clock 0) = id_ms (frozen_clock 1)
   \<and> request_id (frozen_clock 0) hi_hello = request_id (frozen_clock 1) how_fine
   \<and> fst (process_webhook_data frozen_clock (queued [hi_hello, how_fine]))
       = [conversation_event (frozen_clock 0) hi_hello]"
  by (simp add: process_webhook_data_def queued_def init_manager_def hi_hello_def
        how_fine_def request_id_def dget_def frozen_clock_def has_key_def)

section \<open>The first messages of a new connection\<close>

text \<open>
  Run without interruption, the handler of \<^verbatim>\<open>/ws\<close> sends a new connection the events
  that are live at that time and then the statistics, and the connection is registered
  last in the list.
\<close>

lemma websocket_endpoint_first_messages:
  "\<not> fails websocket
    \<Longrightarrow> websocket_endpoint_open fails now websocket s active_connections
          = ([Sent websocket (LiveMessagesUpdate (filter (is_live now) (live_messages s))),
              Sent websocket (StatsUpdate (stats s))],
             s\<lparr>live_messages := filter (is_live now) (live_messages s)\<rparr>,
             active_connections @ [websocket])"
  by (simp add: websocket_endpoint_open_def get_live_messages_def get_stats_def connect_def
        Let_def)

end
